theory Spec2Isabelle
  imports Complex_Main
begin

text \<open>
  A shallow embedding of the two tools of the evmTools repository: the ERC-721 holder
  snapshot (\<open>NFTSnapshotTool\<close>) and the multi-wallet portfolio tracker
  (\<open>PortfolioTracker\<close>). The blockchain node and the price service are parameters:
  a ledger answers every read with a value or a failure, an oracle answers every
  request with a response or a failure. Asynchronous calls are awaited one at a time in
  the source, so each method is a function from the state before to the result and
  the state after.
\<close>

section \<open>JavaScript objects used as dictionaries\<close>

text \<open>
  Both tools keep their results in plain objects keyed by strings (addresses, token
  symbols). \<open>Object.entries\<close> enumerates such keys in insertion order, so an object
  is an association list with distinct keys, the newest key last. The assignment
  \<open>obj[key] = v\<close> keeps the position of an existing key and appends a new one.
\<close>

fun obj_set :: "(string \<times> 'v) list \<Rightarrow> string \<Rightarrow> 'v \<Rightarrow> (string \<times> 'v) list" where
  "obj_set [] key v = [(key, v)]"
| "obj_set ((k, x) # rest) key v =
     (if k = key then (k, v) # rest else (k, x) # obj_set rest key v)"

section \<open>ERC-721 holder snapshot (erc721snapshot.ts)\<close>

subsection \<open>Data model\<close>

text \<open>
  The ledger as the snapshot tool sees it through \<open>readContract\<close>: a view call returns
  a value or throws. \<open>totalSupply\<close> is \<open>None\<close> when the call throws; \<open>ownerOf i\<close> is
  \<open>None\<close> when the call for token id \<open>i\<close> throws (token burned or never minted).
  Token ids are \<open>bigint\<close> in the source, hence \<open>int\<close>.
\<close>

record nft_ledger =
  totalSupply :: "int option"
  ownerOf :: "int \<Rightarrow> string option"

text \<open>\<open>NFTSnapshot\<close> is an object from addresses to counts.\<close>

type_synonym NFTSnapshot = "(string \<times> nat) list"

datatype snapshot_error = RangeRequired
  \<comment> \<open>\<open>Error("Must provide startId and endId if totalSupply is not available")\<close>\<close>

text \<open>viem's \<open>Address\<close> type is the template type \<open>`0x${string}`\<close>.\<close>

definition is_Address :: "string \<Rightarrow> bool" where
  "is_Address a = (take 2 a = ''0x'')"

subsection \<open>Operations\<close>

definition getTotalSupply :: "nft_ledger \<Rightarrow> int option" where
  "getTotalSupply L = totalSupply L"

definition getTokenOwner :: "nft_ledger \<Rightarrow> int \<Rightarrow> string option" where
  "getTokenOwner L tokenId = ownerOf L tokenId"

text \<open>\<open>if (owner)\<close>: \<open>null\<close> and the empty string are falsy.\<close>

definition truthy_owner :: "string option \<Rightarrow> bool" where
  "truthy_owner owner = (case owner of None \<Rightarrow> False | Some a \<Rightarrow> a \<noteq> [])"

text \<open>
  \<open>startId\<close> and \<open>endId\<close> are optional numbers that hold integers (\<open>BigInt\<close>
  accepts nothing else). \<open>startId ? \<dots>\<close> and \<open>!startId\<close>: \<open>undefined\<close> and \<open>0\<close> are
  falsy.
\<close>

definition truthy_id :: "int option \<Rightarrow> bool" where
  "truthy_id n = (case n of None \<Rightarrow> False | Some k \<Rightarrow> k \<noteq> 0)"

text \<open>\<open>holders[owner] || 0\<close>: a missing key and a stored \<open>0\<close> both read as \<open>0\<close>.\<close>

definition holders_get :: "NFTSnapshot \<Rightarrow> string \<Rightarrow> nat" where
  "holders_get holders owner = (case map_of holders owner of None \<Rightarrow> 0 | Some c \<Rightarrow> c)"

text \<open>
  The body of the \<open>for\<close> loop of \<open>createSnapshot\<close> for one index \<open>i\<close>. The state is
  the tally together with the list of indices whose owner has been queried so far.
\<close>

definition scan_step :: "nft_ledger \<Rightarrow> int \<Rightarrow> NFTSnapshot \<times> int list \<Rightarrow> NFTSnapshot \<times> int list" where
  "scan_step L i st =
     (let owner = getTokenOwner L i
      in if truthy_owner owner
         then (obj_set (fst st) (the owner) (holders_get (fst st) (the owner) + 1), snd st @ [i])
         else (fst st, snd st @ [i]))"

text \<open>\<open>for (let i = start; i < end; i++)\<close>\<close>

function scan_loop :: "nft_ledger \<Rightarrow> int \<Rightarrow> int \<Rightarrow> NFTSnapshot \<times> int list \<Rightarrow> NFTSnapshot \<times> int list" where
  "scan_loop L i end st = (if i < end then scan_loop L (i + 1) end (scan_step L i st) else st)"
  by pat_completeness auto
termination
  by (relation "measure (\<lambda>(L, i, end, st). nat (end - i))") auto

declare scan_loop.simps [simp del]

text \<open>
  \<open>createSnapshot(startId?, endId?)\<close>. The result pairs the indices whose owner was
  queried, in order, with the thrown error or the returned tally.
\<close>

definition createSnapshot ::
  "nft_ledger \<Rightarrow> int option \<Rightarrow> int option \<Rightarrow> int list \<times> (snapshot_error + NFTSnapshot)" where
  "createSnapshot L startId endId =
     (case (case getTotalSupply L of
              Some n \<Rightarrow> Inr n
            | None \<Rightarrow> if \<not> truthy_id startId \<or> \<not> truthy_id endId then Inl RangeRequired
                      else Inr (the endId)) of
        Inl err \<Rightarrow> ([], Inl err)
      | Inr supply \<Rightarrow>
          (let start = (if truthy_id startId then the startId else 0);
               end = (if truthy_id endId then the endId else supply);
               st = scan_loop L start end ([], [])
           in (snd st, Inr (fst st))))"

text \<open>\<open>getAirdropEligible(snapshot, minTokens = 1)\<close>\<close>

definition getAirdropEligible :: "NFTSnapshot \<Rightarrow> real option \<Rightarrow> string list" where
  "getAirdropEligible snapshot minTokens =
     (let m = (case minTokens of None \<Rightarrow> 1 | Some k \<Rightarrow> k)
      in map fst (filter (\<lambda>(address, count). real count \<ge> m) snapshot))"

subsection \<open>Specification vocabulary\<close>

text \<open>
  Over a list of scanned indices: how many resolved to the address \<open>a\<close>, and how many
  resolved at all.
\<close>

definition resolved_to :: "nft_ledger \<Rightarrow> string \<Rightarrow> int list \<Rightarrow> nat" where
  "resolved_to L a ks = length (filter (\<lambda>k. ownerOf L k = Some a) ks)"

definition resolved :: "nft_ledger \<Rightarrow> int list \<Rightarrow> nat" where
  "resolved L ks = length (filter (\<lambda>k. ownerOf L k \<noteq> None) ks)"

definition tally_ok :: "NFTSnapshot \<Rightarrow> bool" where
  "tally_ok h = (distinct (map fst h) \<and> (\<forall>c \<in> set (map snd h). 0 < c))"

text \<open>
  Scenario A of the specification: total supply 5, indices 0 and 2 owned by one address,
  index 4 by another, indices 1 and 3 unresolved.
\<close>

definition scenario_A :: nft_ledger where
  "scenario_A = \<lparr>totalSupply = Some 5,
                 ownerOf = map_of [(0, ''0xX''), (2, ''0xX''), (4, ''0xY'')]\<rparr>"

text \<open>A ledger whose \<open>totalSupply\<close> call throws.\<close>

definition no_supply :: nft_ledger where
  "no_supply = \<lparr>totalSupply = None, ownerOf = map_of [(1, ''0xX''), (2, ''0xY'')]\<rparr>"

section \<open>JavaScript numbers and numeric strings\<close>

text \<open>
  The portfolio tracker computes with JavaScript numbers, which are IEEE-754 binary64
  values. A finite double is \<open>Finite m e\<close>, the value \<open>m * 2 ^ e\<close>, in canonical form:
  \<open>2 ^ 52 \<le> \<bar>m\<bar> < 2 ^ 53\<close> with \<open>- 1074 \<le> e \<le> 971\<close> for a normal number,
  \<open>\<bar>m\<bar> < 2 ^ 52\<close> with \<open>e = - 1074\<close> for a subnormal one, and \<open>Finite 0 0\<close> for zero.
  The sign of zero is not represented: the tracker never divides by a negative zero
  and never inspects the sign of a zero.
\<close>

datatype number = Finite int int | NaN | PosInfinity | NegInfinity

definition zero :: number where
  "zero = Finite 0 0"

text \<open>
  Rounding a positive rational \<open>n / d\<close> to the nearest double. The two loops look for
  the exponent: halve while the significand has more than 53 bits, double while it has
  fewer and the exponent is above the subnormal one. Each keeps \<open>n / d * 2 ^ e\<close>.
\<close>

function scale_down :: "int \<Rightarrow> int \<Rightarrow> int \<Rightarrow> int \<times> int \<times> int" where
  "scale_down n d e =
     (if 2 ^ 53 * d \<le> n \<and> e < 972 then scale_down n (2 * d) (e + 1) else (n, d, e))"
  by pat_completeness auto
termination
  by (relation "measure (\<lambda>(n, d, e). nat (972 - e))") auto

function scale_up :: "int \<Rightarrow> int \<Rightarrow> int \<Rightarrow> int \<times> int \<times> int" where
  "scale_up n d e =
     (if n < 2 ^ 52 * d \<and> - 1074 < e then scale_up (2 * n) d (e - 1) else (n, d, e))"
  by pat_completeness auto
termination
  by (relation "measure (\<lambda>(n, d, e). nat (e + 1074))") auto

declare scale_down.simps [simp del] scale_up.simps [simp del]

text \<open>The integer nearest to \<open>n / d\<close>, ties to the even one (\<open>0 \<le> n\<close>, \<open>0 < d\<close>).\<close>

definition round_half_even :: "int \<Rightarrow> int \<Rightarrow> int" where
  "round_half_even n d =
     (let q = n div d; r = n mod d
      in if 2 * r < d then q else if d < 2 * r then q + 1 else if even q then q else q + 1)"

text \<open>
  From a rounded significand and its exponent to the canonical double: a significand
  that rounded up to \<open>2 ^ 53\<close> moves to the next exponent, and an exponent above 971
  overflows to an infinity.
\<close>

definition pack :: "int \<Rightarrow> int \<Rightarrow> number" where
  "pack m e =
     (if m = 0 then zero
      else if \<bar>m\<bar> = 2 ^ 53
           then (if 971 \<le> e then (if 0 < m then PosInfinity else NegInfinity)
                 else Finite (m div 2) (e + 1))
      else if 971 < e then (if 0 < m then PosInfinity else NegInfinity)
      else Finite m e)"

definition round_pos :: "int \<Rightarrow> int \<Rightarrow> int \<times> int" where
  "round_pos p q =
     (case scale_up p q 0 of (n1, d1, e1) \<Rightarrow>
      case scale_down n1 d1 e1 of (n, d, e) \<Rightarrow> (round_half_even n d, e))"

text \<open>The double nearest to \<open>p / q\<close>, for \<open>0 < q\<close>.\<close>

definition round_ratio :: "int \<Rightarrow> int \<Rightarrow> number" where
  "round_ratio p q =
     (if p = 0 then zero
      else if p < 0 then (case round_pos (- p) q of (m, e) \<Rightarrow> pack (- m) e)
      else (case round_pos p q of (m, e) \<Rightarrow> pack m e))"

text \<open>The double nearest to \<open>s * 2 ^ e\<close>.\<close>

definition round_scaled :: "int \<Rightarrow> int \<Rightarrow> number" where
  "round_scaled s e =
     (if 0 \<le> e then round_ratio (s * 2 ^ nat e) 1 else round_ratio s (2 ^ nat (- e)))"

text \<open>\<open>a + b\<close>\<close>

fun fadd :: "number \<Rightarrow> number \<Rightarrow> number" where
  "fadd (Finite m1 e1) (Finite m2 e2) =
     (let e = min e1 e2 in round_scaled (m1 * 2 ^ nat (e1 - e) + m2 * 2 ^ nat (e2 - e)) e)"
| "fadd NaN b = NaN"
| "fadd a NaN = NaN"
| "fadd PosInfinity NegInfinity = NaN"
| "fadd NegInfinity PosInfinity = NaN"
| "fadd PosInfinity b = PosInfinity"
| "fadd a PosInfinity = PosInfinity"
| "fadd NegInfinity b = NegInfinity"
| "fadd a NegInfinity = NegInfinity"

text \<open>\<open>- a\<close> and \<open>a - b\<close>\<close>

fun fneg :: "number \<Rightarrow> number" where
  "fneg (Finite m e) = Finite (- m) e"
| "fneg NaN = NaN"
| "fneg PosInfinity = NegInfinity"
| "fneg NegInfinity = PosInfinity"

definition fsub :: "number \<Rightarrow> number \<Rightarrow> number" where
  "fsub a b = fadd a (fneg b)"

text \<open>The sign of a number that is not \<open>NaN\<close>: \<open>- 1\<close>, \<open>0\<close> or \<open>1\<close>.\<close>

fun fsign :: "number \<Rightarrow> int" where
  "fsign (Finite m e) = sgn m"
| "fsign PosInfinity = 1"
| "fsign NegInfinity = - 1"
| "fsign NaN = 0"

definition signed_infinity :: "int \<Rightarrow> number" where
  "signed_infinity s = (if s = 0 then NaN else if 0 < s then PosInfinity else NegInfinity)"

text \<open>\<open>a * b\<close>: an infinity times zero is \<open>NaN\<close>.\<close>

fun fmul :: "number \<Rightarrow> number \<Rightarrow> number" where
  "fmul (Finite m1 e1) (Finite m2 e2) = round_scaled (m1 * m2) (e1 + e2)"
| "fmul NaN b = NaN"
| "fmul a NaN = NaN"
| "fmul a b = signed_infinity (fsign a * fsign b)"

text \<open>
  \<open>a / b\<close>: a finite non-zero number over zero is an infinity, zero over zero and an
  infinity over an infinity are \<open>NaN\<close>, a finite number over an infinity is zero.
\<close>

fun fdiv :: "number \<Rightarrow> number \<Rightarrow> number" where
  "fdiv (Finite m1 e1) (Finite m2 e2) =
     (if m2 = 0 then signed_infinity (sgn m1)
      else if e2 \<le> e1 then round_ratio (sgn m2 * m1 * 2 ^ nat (e1 - e2)) \<bar>m2\<bar>
      else round_ratio (sgn m2 * m1) (\<bar>m2\<bar> * 2 ^ nat (e2 - e1)))"
| "fdiv NaN b = NaN"
| "fdiv a NaN = NaN"
| "fdiv (Finite m1 e1) b = zero"
| "fdiv a (Finite m2 e2) = signed_infinity (fsign a * (if m2 < 0 then - 1 else 1))"
| "fdiv a b = NaN"

text \<open>\<open>a > b\<close>: false as soon as one side is \<open>NaN\<close>.\<close>

fun fgt :: "number \<Rightarrow> number \<Rightarrow> bool" where
  "fgt (Finite m1 e1) (Finite m2 e2) =
     (let e = min e1 e2 in m2 * 2 ^ nat (e2 - e) < m1 * 2 ^ nat (e1 - e))"
| "fgt NaN b = False"
| "fgt a NaN = False"
| "fgt PosInfinity b = (b \<noteq> PosInfinity)"
| "fgt a PosInfinity = False"
| "fgt a NegInfinity = (a \<noteq> NegInfinity)"
| "fgt NegInfinity b = False"

text \<open>Truthiness of a number: \<open>0\<close> and \<open>NaN\<close> are falsy.\<close>

fun truthy_number :: "number \<Rightarrow> bool" where
  "truthy_number (Finite m e) = (m \<noteq> 0)"
| "truthy_number NaN = False"
| "truthy_number a = True"

text \<open>
  A numeric string is kept by what it denotes rather than by its characters. \<open>Dec n k\<close>
  is the decimal with digits \<open>n\<close> and \<open>k\<close> places after the point, the value
  \<open>n / 10 ^ k\<close>: what viem's \<open>formatUnits\<close> and \<open>Number.prototype.toFixed\<close> print, and
  what a literal such as \<open>"0"\<close> is. \<open>Shortest x\<close> is \<open>x.toString()\<close>, the shortest
  string that \<open>parseFloat\<close> reads back as the double \<open>x\<close> (\<open>"NaN"\<close> and \<open>"Infinity"\<close>
  for the non-finite ones).
\<close>

datatype numstr = Dec int nat | Shortest number

fun parseFloat :: "numstr \<Rightarrow> number" where
  "parseFloat (Dec n k) = round_ratio n (10 ^ k)"
| "parseFloat (Shortest x) = x"

definition toString :: "number \<Rightarrow> numstr" where
  "toString x = Shortest x"

text \<open>
  \<open>x.toFixed(f)\<close>: the integer \<open>n\<close> with \<open>n / 10 ^ f\<close> nearest to \<open>x\<close>, the larger in
  magnitude on a tie, printed with \<open>f\<close> decimals; from \<open>10 ^ 21\<close> on and for \<open>NaN\<close> it
  is \<open>x.toString()\<close>.
\<close>

fun toFixed :: "nat \<Rightarrow> number \<Rightarrow> numstr" where
  "toFixed f (Finite m e) =
     (let num = \<bar>m\<bar> * 2 ^ nat e; den = 2 ^ nat (- e)
      in if 10 ^ 21 * den \<le> num then Shortest (Finite m e)
         else Dec (sgn m * ((2 * num * 10 ^ f + den) div (2 * den))) f)"
| "toFixed f a = Shortest a"

text \<open>viem's \<open>formatUnits(value, decimals)\<close> and \<open>formatEther(wei)\<close>: exact decimals.\<close>

definition formatUnits :: "int \<Rightarrow> nat \<Rightarrow> numstr" where
  "formatUnits v decimals = Dec v decimals"

definition formatEther :: "int \<Rightarrow> numstr" where
  "formatEther wei = formatUnits wei 18"

text \<open>
  \<open>String.prototype.toLowerCase\<close> on ASCII text, which is what an address is: the
  letters \<open>A\<close> to \<open>Z\<close> go to \<open>a\<close> to \<open>z\<close>, every other character stays.
\<close>

definition lower_char :: "char \<Rightarrow> char" where
  "lower_char c =
     (case map_of (zip ''ABCDEFGHIJKLMNOPQRSTUVWXYZ'' ''abcdefghijklmnopqrstuvwxyz'') c of
        Some l \<Rightarrow> l
      | None \<Rightarrow> c)"

definition toLowerCase :: "string \<Rightarrow> string" where
  "toLowerCase s = map lower_char s"

section \<open>Multi-wallet portfolio tracker (\<open>PortfolioTracker\<close>, TypeScript version)\<close>

text \<open>
  The class is modelled from its TypeScript source. The JavaScript twin
  \<open>erc20portfoliotracker.js\<close> has the same methods and loops; it reads a module-level
  token table instead of \<open>this.tokens\<close>, re-aggregates in \<open>calculatePortfolioValue\<close>
  when \<open>portfolioData.aggregatedBalances\<close> is undefined rather than empty, and does
  not test \<open>response.ok\<close> in \<open>getTokenPrice\<close>; that method is modelled a second
  time, as \<open>getTokenPrice_js\<close>.
\<close>

subsection \<open>Data model\<close>

text \<open>
  The interfaces of the source, field for field. Record fields share one name space,
  so the fields of \<open>TokenConfig\<close>, \<open>WalletDetails\<close> and \<open>AssetValue\<close> carry a prefix.
\<close>

record TokenConfig =
  tc_address :: "string option"
  tc_decimals :: nat
  tc_symbol :: string

record TokenBalance =
  balance :: numstr
  symbol :: string
  decimals :: nat

record WalletConfig =
  address :: string
  label :: string

type_synonym WalletBalances = "(string \<times> TokenBalance) list"

record WalletDetails =
  wd_address :: string
  wd_label :: string
  balances :: WalletBalances

type_synonym AggregatedBalances = "(string \<times> TokenBalance) list"

record PortfolioData =
  aggregatedBalances :: AggregatedBalances
  walletDetails :: "WalletDetails list"

record AssetValue =
  av_symbol :: string
  av_balance :: numstr
  av_price :: numstr
  av_value :: numstr
  percentage :: numstr

record PortfolioValue =
  totalValue :: number
  valueBreakdown :: "AssetValue list"

text \<open>
  The ledger as the tracker sees it through the viem client. \<open>getBalance a\<close> is the
  native balance of \<open>a\<close> in wei and \<open>balanceOf token a\<close> the result of the view call
  \<open>balanceOf(a)\<close> on the contract at \<open>token\<close>; each is \<open>None\<close> when the call rejects.
\<close>

record chain =
  getBalance :: "string \<Rightarrow> nat option"
  balanceOf :: "string \<Rightarrow> string \<Rightarrow> nat option"

text \<open>
  What \<open>fetch\<close> on the price service comes back with: it rejects (\<open>FetchFailed\<close>), or
  it resolves to a response with its \<open>ok\<close> flag and its body. The body is \<open>None\<close> when
  \<open>response.json()\<close> rejects or does not yield an object, and otherwise maps an id to
  \<open>data[id]?.usd\<close> where that is a number. An oracle gives the response to the \<open>n\<close>-th
  request of the run for an id, so the same id may fail now and succeed later.
\<close>

datatype response = FetchFailed | Response bool "(string \<rightharpoonup> number) option"

type_synonym price_oracle = "nat \<Rightarrow> string \<Rightarrow> response"

text \<open>
  The fields of a \<open>PortfolioTracker\<close>. \<open>requests\<close> is not a field of the class: it
  counts the calls to \<open>fetch\<close> the instance has made.
\<close>

record tracker =
  wallets :: "WalletConfig list"
  portfolioData :: PortfolioData
  priceCache :: "string \<rightharpoonup> number"
  tokens :: "(string \<times> TokenConfig) list"
  requests :: nat

subsection \<open>Construction\<close>

definition DEFAULT_TOKENS :: "(string \<times> TokenConfig) list" where
  "DEFAULT_TOKENS =
     [(''ETH'', \<lparr>tc_address = None, tc_decimals = 18, tc_symbol = ''ETH''\<rparr>),
      (''USDC'', \<lparr>tc_address = Some ''0xA0b86a33E6441c8EBb6E6c8c8c9c5C8C8c8c8c8c'',
                 tc_decimals = 6, tc_symbol = ''USDC''\<rparr>),
      (''USDT'', \<lparr>tc_address = Some ''0xdAC17F958D2ee523a2206206994597C13D831ec7'',
                 tc_decimals = 6, tc_symbol = ''USDT''\<rparr>),
      (''WETH'', \<lparr>tc_address = Some ''0xC02aaA39b223FE8D0A0e5C4F27eAD9083C756Cc2'',
                 tc_decimals = 18, tc_symbol = ''WETH''\<rparr>),
      (''UNI'', \<lparr>tc_address = Some ''0x1f9840a85d5aF5bf1D1762F925BDADdC4201F984'',
                tc_decimals = 18, tc_symbol = ''UNI''\<rparr>),
      (''LINK'', \<lparr>tc_address = Some ''0x514910771AF9Ca656af840dff83E8264EcF986CA'',
                 tc_decimals = 18, tc_symbol = ''LINK''\<rparr>),
      (''AAVE'', \<lparr>tc_address = Some ''0x7Fc66500c84A76Ad7e9c93437bFc5Ac33E2DDaE9'',
                 tc_decimals = 18, tc_symbol = ''AAVE''\<rparr>),
      (''COMP'', \<lparr>tc_address = Some ''0xc00e94Cb662C3520282E6f5717214004A7f26888'',
                 tc_decimals = 18, tc_symbol = ''COMP''\<rparr>)]"

text \<open>
  The constructor: \<open>{ ...DEFAULT_TOKENS, ...(config.customTokens || {}) }\<close>, empty
  wallet list, empty portfolio, empty cache.
\<close>

definition new_tracker :: "(string \<times> TokenConfig) list \<Rightarrow> tracker" where
  "new_tracker customTokens =
     \<lparr>wallets = [],
      portfolioData = \<lparr>aggregatedBalances = [], walletDetails = []\<rparr>,
      priceCache = Map.empty,
      tokens = foldl (\<lambda>obj (key, token). obj_set obj key token) DEFAULT_TOKENS customTokens,
      requests = 0\<rparr>"

definition addWallet :: "string \<Rightarrow> string \<Rightarrow> tracker \<Rightarrow> tracker" where
  "addWallet addr lbl t = t\<lparr>wallets := wallets t @ [\<lparr>address = toLowerCase addr, label = lbl\<rparr>]\<rparr>"

subsection \<open>Price cache\<close>

text \<open>\<open>mapping[symbol] || symbol.toLowerCase()\<close>\<close>

definition getCoingeckoId :: "string \<Rightarrow> string" where
  "getCoingeckoId symb =
     (case map_of [(''ETH'', ''ethereum''), (''USDC'', ''usd-coin''), (''USDT'', ''tether''),
                   (''WETH'', ''weth''), (''UNI'', ''uniswap''), (''LINK'', ''chainlink''),
                   (''AAVE'', ''aave''), (''COMP'', ''compound-governance-token'')] symb of
        Some cid \<Rightarrow> cid
      | None \<Rightarrow> toLowerCase symb)"

text \<open>
  The \<open>try\<close> block of \<open>getTokenPrice\<close>: \<open>Inl ()\<close> when it throws (the fetch rejects, the
  response is not \<open>ok\<close>, or the body cannot be read), \<open>Inr price\<close> when it returns. The
  price is \<open>data[id]?.usd || 0\<close>, and it is stored in the cache before it is returned.
\<close>

definition try_fetch_price :: "price_oracle \<Rightarrow> string \<Rightarrow> tracker \<Rightarrow> (unit + number) \<times> tracker" where
  "try_fetch_price orc tokenSymbol t =
     (let coingeckoId = getCoingeckoId tokenSymbol;
          t1 = t\<lparr>requests := requests t + 1\<rparr>
      in case orc (requests t) coingeckoId of
           FetchFailed \<Rightarrow> (Inl (), t1)
         | Response ok body \<Rightarrow>
             if \<not> ok then (Inl (), t1)
             else (case body of
                     None \<Rightarrow> (Inl (), t1)
                   | Some data \<Rightarrow>
                       (let price = (case data coingeckoId of
                                       None \<Rightarrow> zero
                                     | Some usd \<Rightarrow> if truthy_number usd then usd else zero)
                        in (Inr price, t1\<lparr>priceCache := (priceCache t1)(tokenSymbol \<mapsto> price)\<rparr>))))"

text \<open>
  \<open>getTokenPrice\<close>: a truthy cache entry is returned at once; otherwise the \<open>try\<close>
  block runs and the \<open>catch\<close> turns a throw into \<open>0\<close>.
\<close>

definition cached_price :: "tracker \<Rightarrow> string \<Rightarrow> number option" where
  "cached_price t tokenSymbol =
     (case priceCache t tokenSymbol of
        None \<Rightarrow> None
      | Some p \<Rightarrow> if truthy_number p then Some p else None)"

definition getTokenPrice :: "price_oracle \<Rightarrow> string \<Rightarrow> tracker \<Rightarrow> number \<times> tracker" where
  "getTokenPrice orc tokenSymbol t =
     (case cached_price t tokenSymbol of
        Some p \<Rightarrow> (p, t)
      | None \<Rightarrow>
          (case try_fetch_price orc tokenSymbol t of
             (Inr price, t1) \<Rightarrow> (price, t1)
           | (Inl err, t1) \<Rightarrow> (zero, t1)))"

text \<open>
  The \<open>getTokenPrice\<close> of the JavaScript twin \<open>erc20portfoliotracker.js\<close>. Its
  \<open>try\<close> block goes from \<open>fetch\<close> straight to \<open>response.json()\<close>: there is no
  \<open>response.ok\<close> test, so the body of a non-success response is read like any other.
  The cache test, the price \<open>data[id]?.usd || 0\<close>, the store and the \<open>catch\<close> are
  the same.
\<close>

definition try_fetch_price_js :: "price_oracle \<Rightarrow> string \<Rightarrow> tracker \<Rightarrow> (unit + number) \<times> tracker" where
  "try_fetch_price_js orc tokenSymbol t =
     (let t1 = t\<lparr>requests := requests t + 1\<rparr>
      in case orc (requests t) (getCoingeckoId tokenSymbol) of
           FetchFailed \<Rightarrow> (Inl (), t1)
         | Response ok body \<Rightarrow>
             (case body of
                None \<Rightarrow> (Inl (), t1)
              | Some data \<Rightarrow>
                  (let price = (case data (getCoingeckoId tokenSymbol) of
                                  None \<Rightarrow> zero
                                | Some usd \<Rightarrow> if truthy_number usd then usd else zero)
                   in (Inr price, t1\<lparr>priceCache := (priceCache t1)(tokenSymbol \<mapsto> price)\<rparr>))))"

definition getTokenPrice_js :: "price_oracle \<Rightarrow> string \<Rightarrow> tracker \<Rightarrow> number \<times> tracker" where
  "getTokenPrice_js orc tokenSymbol t =
     (case cached_price t tokenSymbol of
        Some p \<Rightarrow> (p, t)
      | None \<Rightarrow>
          (case try_fetch_price_js orc tokenSymbol t of
             (Inr price, t1) \<Rightarrow> (price, t1)
           | (Inl err, t1) \<Rightarrow> (zero, t1)))"

subsection \<open>Balances\<close>

definition getETHBalance :: "chain \<Rightarrow> string \<Rightarrow> numstr" where
  "getETHBalance c addr =
     (case getBalance c addr of Some wei \<Rightarrow> formatEther (int wei) | None \<Rightarrow> Dec 0 0)"

definition getTokenBalance :: "chain \<Rightarrow> string \<Rightarrow> string \<Rightarrow> nat" where
  "getTokenBalance c tokenAddress walletAddress =
     (case balanceOf c tokenAddress walletAddress of Some b \<Rightarrow> b | None \<Rightarrow> 0)"

text \<open>\<open>if (token.address)\<close>: \<open>null\<close> and the empty string are falsy.\<close>

definition truthy_string :: "string option \<Rightarrow> bool" where
  "truthy_string s = (case s of None \<Rightarrow> False | Some a \<Rightarrow> a \<noteq> [])"

text \<open>The literal \<open>0.001\<close> of the dust test.\<close>

definition dust :: number where
  "dust = round_ratio 1 1000"

text \<open>
  The body of the loop of \<open>getWalletBalances\<close> for one entry of the token registry,
  and the loop over \<open>Object.entries(this.tokens)\<close>.
\<close>

definition token_step ::
  "chain \<Rightarrow> string \<Rightarrow> string \<times> TokenConfig \<Rightarrow> WalletBalances \<Rightarrow> WalletBalances" where
  "token_step c walletAddress entry bals =
     (case entry of (symb, token) \<Rightarrow>
        if truthy_string (tc_address token)
        then (let bal = getTokenBalance c (the (tc_address token)) walletAddress
              in if 0 < bal
                 then (let formattedBalance = formatUnits (int bal) (tc_decimals token)
                       in if fgt (parseFloat formattedBalance) dust
                          then obj_set bals symb
                                 \<lparr>balance = formattedBalance, symbol = tc_symbol token,
                                  decimals = tc_decimals token\<rparr>
                          else bals)
                 else bals)
        else bals)"

fun token_loop ::
  "chain \<Rightarrow> string \<Rightarrow> (string \<times> TokenConfig) list \<Rightarrow> WalletBalances \<Rightarrow> WalletBalances" where
  "token_loop c walletAddress [] bals = bals"
| "token_loop c walletAddress (entry # rest) bals =
     token_loop c walletAddress rest (token_step c walletAddress entry bals)"

definition getWalletBalances ::
  "chain \<Rightarrow> (string \<times> TokenConfig) list \<Rightarrow> string \<Rightarrow> WalletBalances" where
  "getWalletBalances c toks walletAddress =
     (let ethBalance = getETHBalance c walletAddress
      in token_loop c walletAddress toks
           (if fgt (parseFloat ethBalance) zero
            then [(''ETH'', \<lparr>balance = ethBalance, symbol = ''ETH'', decimals = 18\<rparr>)]
            else []))"

subsection \<open>Aggregation\<close>

text \<open>
  The body of the inner loop of \<open>aggregatePortfolio\<close> for one entry of a wallet's
  balances: a symbol seen for the first time starts at \<open>"0"\<close>, then the wallet's
  amount is added with \<open>parseFloat\<close>, \<open>+\<close> and \<open>toString\<close>.
\<close>

definition add_balance :: "string \<times> TokenBalance \<Rightarrow> AggregatedBalances \<Rightarrow> AggregatedBalances" where
  "add_balance entry agg =
     (case entry of (symb, data) \<Rightarrow>
        (let agg1 = (if map_of agg symb = None
                     then obj_set agg symb
                            \<lparr>balance = Dec 0 0, symbol = symbol data, decimals = decimals data\<rparr>
                     else agg);
             cur = the (map_of agg1 symb)
         in obj_set agg1 symb
              (cur\<lparr>balance := toString (fadd (parseFloat (balance cur))
                                              (parseFloat (balance data)))\<rparr>)))"

fun aggregate_entries :: "(string \<times> TokenBalance) list \<Rightarrow> AggregatedBalances \<Rightarrow> AggregatedBalances" where
  "aggregate_entries [] agg = agg"
| "aggregate_entries (entry # rest) agg = aggregate_entries rest (add_balance entry agg)"

text \<open>
  The body of the outer loop for one wallet, and the loop over the wallets in the order
  they were added.
\<close>

definition wallet_step ::
  "chain \<Rightarrow> (string \<times> TokenConfig) list \<Rightarrow> WalletConfig \<Rightarrow> PortfolioData \<Rightarrow> PortfolioData" where
  "wallet_step c toks wallet pd =
     (let bals = getWalletBalances c toks (address wallet)
      in \<lparr>aggregatedBalances = aggregate_entries bals (aggregatedBalances pd),
          walletDetails = walletDetails pd
            @ [\<lparr>wd_address = address wallet, wd_label = label wallet, balances = bals\<rparr>]\<rparr>)"

fun wallet_loop ::
  "chain \<Rightarrow> (string \<times> TokenConfig) list \<Rightarrow> WalletConfig list \<Rightarrow> PortfolioData \<Rightarrow> PortfolioData" where
  "wallet_loop c toks [] pd = pd"
| "wallet_loop c toks (wallet # rest) pd = wallet_loop c toks rest (wallet_step c toks wallet pd)"

definition aggregatePortfolio :: "chain \<Rightarrow> tracker \<Rightarrow> PortfolioData \<times> tracker" where
  "aggregatePortfolio c t =
     (let pd = wallet_loop c (tokens t) (wallets t) \<lparr>aggregatedBalances = [], walletDetails = []\<rparr>
      in (pd, t\<lparr>portfolioData := pd\<rparr>))"

subsection \<open>Valuation\<close>

text \<open>
  The body of the first loop of \<open>calculatePortfolioValue\<close>: one price lookup and one
  row for an aggregated symbol, the total accumulated with \<open>+=\<close>; and the loop over
  the entries of the aggregated balances.
\<close>

definition value_step ::
  "price_oracle \<Rightarrow> string \<times> TokenBalance \<Rightarrow> number \<times> AssetValue list \<times> tracker
     \<Rightarrow> number \<times> AssetValue list \<times> tracker" where
  "value_step orc entry st =
     (case entry of (symb, data) \<Rightarrow>
      case st of (tot, rows, t) \<Rightarrow>
      case getTokenPrice orc symb t of (price, t1) \<Rightarrow>
        (let bal = parseFloat (balance data);
             val = fmul bal price
         in (fadd tot val,
             rows @ [\<lparr>av_symbol = symb, av_balance = toFixed 6 bal, av_price = toFixed 2 price,
                      av_value = toFixed 2 val, percentage = Dec 0 0\<rparr>],
             t1)))"

fun value_loop ::
  "price_oracle \<Rightarrow> (string \<times> TokenBalance) list \<Rightarrow> number \<times> AssetValue list \<times> tracker
     \<Rightarrow> number \<times> AssetValue list \<times> tracker" where
  "value_loop orc [] st = st"
| "value_loop orc (entry # rest) st = value_loop orc rest (value_step orc entry st)"

text \<open>The second pass: \<open>((parseFloat(item.value) / totalValue) * 100).toFixed(2)\<close>.\<close>

definition set_percentage :: "number \<Rightarrow> AssetValue \<Rightarrow> AssetValue" where
  "set_percentage tot item =
     item\<lparr>percentage := toFixed 2 (fmul (fdiv (parseFloat (av_value item)) tot) (round_ratio 100 1))\<rparr>"

text \<open>
  \<open>valueBreakdown.sort((a, b) => parseFloat(b.value) - parseFloat(a.value))\<close>.
  \<open>Array.prototype.sort\<close> is stable and puts \<open>a\<close> after \<open>b\<close> only when the comparator
  is positive on \<open>(a, b)\<close>; a \<open>NaN\<close> from the comparator counts as \<open>0\<close>. It is rendered
  as the insertion of each row, left to right, before the first row it must precede.
\<close>

definition sorts_after :: "AssetValue \<Rightarrow> AssetValue \<Rightarrow> bool" where
  "sorts_after a b = (fsign (fsub (parseFloat (av_value b)) (parseFloat (av_value a))) = 1)"

fun insert_row :: "AssetValue \<Rightarrow> AssetValue list \<Rightarrow> AssetValue list" where
  "insert_row x [] = [x]"
| "insert_row x (y # ys) = (if sorts_after y x then x # y # ys else y # insert_row x ys)"

definition sort_rows :: "AssetValue list \<Rightarrow> AssetValue list" where
  "sort_rows rows = foldl (\<lambda>sorted x. insert_row x sorted) [] rows"

definition calculatePortfolioValue :: "chain \<Rightarrow> price_oracle \<Rightarrow> tracker \<Rightarrow> PortfolioValue \<times> tracker" where
  "calculatePortfolioValue c orc t =
     (let t0 = (if aggregatedBalances (portfolioData t) = [] then snd (aggregatePortfolio c t) else t)
      in case value_loop orc (aggregatedBalances (portfolioData t0)) (zero, [], t0) of
           (tot, rows, t1) \<Rightarrow>
             (\<lparr>totalValue = tot,
               valueBreakdown = sort_rows (map (set_percentage tot) rows)\<rparr>, t1))"

section \<open>Specification vocabulary and scenarios for the tracker\<close>

subsection \<open>Price lookups\<close>

text \<open>
  A lookup for the oracle id \<open>cid\<close> fails when the fetch rejects (network error), the
  response is not a success, its body cannot be read, or the body has no entry for the
  id (unknown symbol).
\<close>

fun lookup_failure :: "response \<Rightarrow> string \<Rightarrow> bool" where
  "lookup_failure FetchFailed cid = True"
| "lookup_failure (Response ok body) cid =
     (\<not> ok \<or> (case body of None \<Rightarrow> True | Some data \<Rightarrow> data cid = None))"

text \<open>The tracker after a sequence of \<open>getTokenPrice\<close> calls, one per listed symbol.\<close>

fun price_run :: "price_oracle \<Rightarrow> string list \<Rightarrow> tracker \<Rightarrow> tracker" where
  "price_run orc [] t = t"
| "price_run orc (s # ss) t = price_run orc ss (snd (getTokenPrice orc s t))"

text \<open>The double 2000.\<close>

definition two_thousand :: number where
  "two_thousand = Finite 8796093022208000 (- 42)"

text \<open>Scenario D: the first request fails, every later one answers 2000 for \<open>ethereum\<close>.\<close>

definition fails_once :: price_oracle where
  "fails_once n cid =
     (if n = 0 then FetchFailed else Response True (Some [''ethereum'' \<mapsto> two_thousand]))"

text \<open>An oracle that answers with the price 0 first and with 2000 afterwards.\<close>

definition zero_then_price :: price_oracle where
  "zero_then_price n cid =
     (if n = 0 then Response True (Some [''ethereum'' \<mapsto> zero])
      else Response True (Some [''ethereum'' \<mapsto> two_thousand]))"

text \<open>
  An oracle whose every answer is a non-success response (a rate-limit status, say)
  whose JSON body nevertheless carries the price 2000 for \<open>ethereum\<close>.
\<close>

definition refused_with_price :: price_oracle where
  "refused_with_price n cid = Response False (Some [''ethereum'' \<mapsto> two_thousand])"

text \<open>An oracle that cannot be reached at all.\<close>

definition unreachable :: price_oracle where
  "unreachable n cid = FetchFailed"

subsection \<open>Aggregated balances\<close>

text \<open>The aggregated amount string of a symbol, if the symbol was aggregated.\<close>

definition agg_balance :: "AggregatedBalances \<Rightarrow> string \<Rightarrow> numstr option" where
  "agg_balance agg s = map_option balance (map_of agg s)"

text \<open>
  The amounts of a symbol that the wallets retained, in wallet order, and their sum in
  double precision: from \<open>0\<close>, each amount read with \<open>parseFloat\<close> and added with \<open>+\<close>.
\<close>

definition retained :: "string \<Rightarrow> WalletDetails list \<Rightarrow> numstr list" where
  "retained s wds = List.map_filter (\<lambda>wd. map_option balance (map_of (balances wd) s)) wds"

definition float_sum :: "numstr list \<Rightarrow> number" where
  "float_sum bs = foldl (\<lambda>acc b. fadd acc (parseFloat b)) zero bs"

definition summed :: "PortfolioData \<Rightarrow> bool" where
  "summed pd = (\<forall>s. agg_balance (aggregatedBalances pd) s =
                     (if retained s (walletDetails pd) = [] then None
                      else Some (Shortest (float_sum (retained s (walletDetails pd))))))"

text \<open>A ledger patched so that one balance query answers 0.\<close>

definition zero_native :: "chain \<Rightarrow> string \<Rightarrow> chain" where
  "zero_native c w = c\<lparr>getBalance := (getBalance c)(w := Some 0)\<rparr>"

definition zero_token :: "chain \<Rightarrow> string \<Rightarrow> string \<Rightarrow> chain" where
  "zero_token c tok w = c\<lparr>balanceOf := (balanceOf c)(tok := (balanceOf c tok)(w := Some 0))\<rparr>"

subsection \<open>Scenarios\<close>

text \<open>
  Three wallets holding 0.1, 0.2 and 0.3 ether and no tokens, added in that order and
  in the opposite order.
\<close>

definition drift_chain :: chain where
  "drift_chain =
     \<lparr>getBalance = map_of [(''0xa1'', 100000000000000000), (''0xa2'', 200000000000000000),
                           (''0xa3'', 300000000000000000)],
      balanceOf = (\<lambda>token wallet. Some 0)\<rparr>"

definition tracker_123 :: tracker where
  "tracker_123 =
     addWallet ''0xA3'' ''c'' (addWallet ''0xA2'' ''b'' (addWallet ''0xA1'' ''a'' (new_tracker [])))"

definition tracker_321 :: tracker where
  "tracker_321 =
     addWallet ''0xA1'' ''a'' (addWallet ''0xA2'' ''b'' (addWallet ''0xA3'' ''c'' (new_tracker [])))"

text \<open>
  Scenario B: a custom token TOKA with 18 decimals; the first wallet holds 10 TOKA and
  the second 5. Every other balance query of this ledger rejects.
\<close>

definition toka :: "string \<times> TokenConfig" where
  "toka = (''TOKA'', \<lparr>tc_address = Some ''0x70ca'', tc_decimals = 18, tc_symbol = ''TOKA''\<rparr>)"

definition scenario_B_chain :: chain where
  "scenario_B_chain =
     \<lparr>getBalance = Map.empty,
      balanceOf = (\<lambda>token. if token = ''0x70ca''
                            then map_of [(''0xb1'', 10000000000000000000), (''0xb2'', 5000000000000000000)]
                            else Map.empty)\<rparr>"

definition scenario_B_tracker :: tracker where
  "scenario_B_tracker = addWallet ''0xB2'' ''second'' (addWallet ''0xB1'' ''first'' (new_tracker [toka]))"

text \<open>
  One wallet on the default registry: 0.0005 ether, exactly 0.001 USDC (1000 units of
  6 decimals) and 0.001001 USDT (1001 units).
\<close>

definition dusty_chain :: chain where
  "dusty_chain =
     \<lparr>getBalance = map_of [(''0xd1'', 500000000000000)],
      balanceOf = (\<lambda>token. if token = ''0xA0b86a33E6441c8EBb6E6c8c8c9c5C8C8c8c8c8c''
                            then map_of [(''0xd1'', 1000)]
                            else if token = ''0xdAC17F958D2ee523a2206206994597C13D831ec7''
                            then map_of [(''0xd1'', 1001)]
                            else Map.empty)\<rparr>"

text \<open>
  Two wallets on the default registry. For the first, the native query and the USDC
  query reject and the LINK query answers 5 LINK; the second holds 2 ether.
\<close>

definition flaky_chain :: chain where
  "flaky_chain =
     \<lparr>getBalance = map_of [(''0xf2'', 2000000000000000000)],
      balanceOf = (\<lambda>token. if token = ''0x514910771AF9Ca656af840dff83E8264EcF986CA''
                            then map_of [(''0xf1'', 5000000000000000000), (''0xf2'', 0)]
                            else Map.empty)\<rparr>"

definition flaky_tracker :: tracker where
  "flaky_tracker = addWallet ''0xF2'' ''second'' (addWallet ''0xF1'' ''first'' (new_tracker []))"

text \<open>One wallet holding 1 ether and nothing else.\<close>

definition one_ether_chain :: chain where
  "one_ether_chain =
     \<lparr>getBalance = map_of [(''0xe1'', 1000000000000000000)],
      balanceOf = (\<lambda>token wallet. Some 0)\<rparr>"

definition one_ether_tracker :: tracker where
  "one_ether_tracker = addWallet ''0xE1'' ''only'' (new_tracker [])"

text \<open>
  The same wallet holding 0.000002 ether instead, and an oracle that always answers
  2000 for \<open>ethereum\<close>: a portfolio worth 0.004.
\<close>

definition tiny_chain :: chain where
  "tiny_chain =
     \<lparr>getBalance = map_of [(''0xe1'', 2000000000000)],
      balanceOf = (\<lambda>token wallet. Some 0)\<rparr>"

definition steady :: price_oracle where
  "steady n cid = Response True (Some [''ethereum'' \<mapsto> two_thousand])"




section \<open>Properties of the holder snapshot\<close>

subsection \<open>The tally object\<close>

lemma map_of_obj_set: "map_of (obj_set h a v) = (map_of h)(a \<mapsto> v)"
  by (induction h a v rule: obj_set.induct) auto

lemma holders_get_set: "holders_get (obj_set h a v) b = (if b = a then v else holders_get h b)"
  by (simp add: holders_get_def map_of_obj_set)

lemma keys_obj_set: "set (map fst (obj_set h a v)) = insert a (set (map fst h))"
  by (induction h a v rule: obj_set.induct) auto

lemma distinct_obj_set: "distinct (map fst h) \<Longrightarrow> distinct (map fst (obj_set h a v))"
proof (induction h a v rule: obj_set.induct)
  case (1 owner v)
  then show ?case by simp
next
  case (2 a c rest owner v)
  then show ?case
    using keys_obj_set [of rest owner v] by auto
qed

lemma values_obj_set: "set (map snd (obj_set h a v)) \<subseteq> insert v (set (map snd h))"
  by (induction h a v rule: obj_set.induct) auto

lemma sum_obj_set:
  "distinct (map fst h) \<Longrightarrow>
   sum_list (map snd (obj_set h a v)) + holders_get h a = sum_list (map snd h) + v"
proof (induction h a v rule: obj_set.induct)
  case (1 owner v)
  then show ?case by (simp add: holders_get_def)
next
  case (2 a c rest owner v)
  show ?case
  proof (cases "a = owner")
    case True
    then show ?thesis by (simp add: holders_get_def)
  next
    case False
    with 2 show ?thesis by (simp add: holders_get_def)
  qed
qed

subsection \<open>The scan loop is a fold over the index range\<close>

lemma scan_loop_foldl: "scan_loop L i e st = foldl (\<lambda>s k. scan_step L k s) st [i..e - 1]"
proof (induction L i e st rule: scan_loop.induct)
  case (1 L i e st)
  show ?case
  proof (cases "i < e")
    case True
    then have "[i..e - 1] = i # [i + 1..e - 1]" by (simp add: upto_rec1)
    with True 1 show ?thesis by (simp add: scan_loop.simps [of L i e st])
  next
    case False
    then show ?thesis by (simp add: scan_loop.simps [of L i e st])
  qed
qed


lemma scan_step_queries: "snd (scan_step L k st) = snd st @ [k]"
  by (simp add: scan_step_def Let_def)

lemma scan_step_get:
  assumes "\<forall>i a. ownerOf L i = Some a \<longrightarrow> is_Address a"
  shows "holders_get (fst (scan_step L k st)) a =
         holders_get (fst st) a + (if ownerOf L k = Some a then 1 else 0)"
proof (cases "ownerOf L k")
  case None
  then show ?thesis by (simp add: scan_step_def getTokenOwner_def truthy_owner_def)
next
  case (Some b)
  from assms Some have "is_Address b" by blast
  then have "b \<noteq> []" by (auto simp: is_Address_def)
  with Some show ?thesis
    by (simp add: scan_step_def getTokenOwner_def truthy_owner_def holders_get_set)
qed

lemma scan_step_ok: "tally_ok (fst st) \<Longrightarrow> tally_ok (fst (scan_step L k st))"
  using values_obj_set
  by (fastforce simp: scan_step_def Let_def tally_ok_def distinct_obj_set)

lemma scan_step_sum:
  assumes "\<forall>i a. ownerOf L i = Some a \<longrightarrow> is_Address a" and "distinct (map fst (fst st))"
  shows "sum_list (map snd (fst (scan_step L k st))) =
         sum_list (map snd (fst st)) + (if ownerOf L k \<noteq> None then 1 else 0)"
proof (cases "ownerOf L k")
  case None
  then show ?thesis by (simp add: scan_step_def getTokenOwner_def truthy_owner_def)
next
  case (Some b)
  from assms(1) Some have "is_Address b" by blast
  then have "b \<noteq> []" by (auto simp: is_Address_def)
  with Some sum_obj_set [OF assms(2), of b "holders_get (fst st) b + 1"] show ?thesis
    by (simp add: scan_step_def getTokenOwner_def truthy_owner_def)
qed

lemma foldl_scan:
  assumes "\<forall>i a. ownerOf L i = Some a \<longrightarrow> is_Address a" and "tally_ok (fst st)"
  shows "snd (foldl (\<lambda>s k. scan_step L k s) st ks) = snd st @ ks
       \<and> tally_ok (fst (foldl (\<lambda>s k. scan_step L k s) st ks))
       \<and> (\<forall>a. holders_get (fst (foldl (\<lambda>s k. scan_step L k s) st ks)) a
               = holders_get (fst st) a + resolved_to L a ks)
       \<and> sum_list (map snd (fst (foldl (\<lambda>s k. scan_step L k s) st ks)))
           = sum_list (map snd (fst st)) + resolved L ks"
  using assms(2)
proof (induction ks arbitrary: st)
  case Nil
  then show ?case by (simp add: resolved_to_def resolved_def)
next
  case (Cons k ks)
  have ok: "tally_ok (fst (scan_step L k st))" using Cons.prems by (rule scan_step_ok)
  have d: "distinct (map fst (fst st))" using Cons.prems by (simp add: tally_ok_def)
  show ?case
    using Cons.IH [OF ok] scan_step_get [OF assms(1), where k = k and st = st]
      scan_step_sum [OF assms(1) d, where k = k]
    by (simp add: scan_step_queries resolved_to_def resolved_def)
qed


lemma foldl_scan_queries: "snd (foldl (\<lambda>s k. scan_step L k s) st ks) = snd st @ ks"
  by (induction ks arbitrary: st) (simp_all add: scan_step_queries)

text \<open>
  Claim C1. Let every owner the ledger returns be an \<open>Address\<close>. When
  \<open>createSnapshot\<close> returns a tally after scanning the indices \<open>ks\<close>, these are
  the indices of the range from the start (the caller's, else 0) up to but excluding
  the end (the caller's, else the total supply) in ascending order, the tally
  has one entry per owner, the entry of an address is the number of scanned indices
  that resolved to it (no entry when that number is zero), the values add up to the
  number of scanned indices whose \<open>ownerOf\<close> call succeeded, and every value is
  strictly positive. Scenario A is the witness: indices 0, 2, 4 resolve to X, X, Y and
  indices 1, 3 fail, and the tally is \<open>{X: 2, Y: 1}\<close>.
\<close>

theorem createSnapshot_tally:
  assumes "\<forall>i a. ownerOf L i = Some a \<longrightarrow> is_Address a"
    and "createSnapshot L startId endId = (ks, Inr holders)"
  shows "ks = [(if truthy_id startId then the startId else 0)
                ..(if truthy_id endId then the endId else the (totalSupply L)) - 1]
       \<and> distinct (map fst holders)
       \<and> (\<forall>a. map_of holders a =
               (if resolved_to L a ks = 0 then None else Some (resolved_to L a ks)))
       \<and> sum_list (map snd holders) = resolved L ks
       \<and> (\<forall>c \<in> set (map snd holders). 0 < c)"
proof -
  note addr = assms(1)
  have ok0: "tally_ok (fst (([], []) :: NFTSnapshot \<times> int list))" by (simp add: tally_ok_def)
  define i where "i = (if truthy_id startId then the startId else 0)"
  define e where "e = (if truthy_id endId then the endId else the (totalSupply L))"
  from assms(2) have run: "scan_loop L i e ([], []) = (holders, ks)"
    by (auto simp: createSnapshot_def Let_def getTotalSupply_def i_def e_def
             split: sum.splits option.splits if_splits intro: prod.expand)
  note inv = foldl_scan [OF addr ok0, where ks = "[i..e - 1]", folded scan_loop_foldl,
                         unfolded run]
  from inv have ok: "tally_ok holders" and ks: "ks = [i..e - 1]"
    and get: "\<And>a. holders_get holders a = resolved_to L a ks"
    and total: "sum_list (map snd holders) = resolved L ks"
    by (simp_all add: holders_get_def)
  have "map_of holders a = (if resolved_to L a ks = 0 then None else Some (resolved_to L a ks))"
    for a
  proof (cases "map_of holders a")
    case None
    with get [of a] show ?thesis by (simp add: holders_get_def)
  next
    case (Some c)
    then have "c \<in> set (map snd holders)" by (force dest: map_of_SomeD)
    with ok have "0 < c" by (auto simp: tally_ok_def)
    with Some get [of a] show ?thesis by (simp add: holders_get_def)
  qed
  with ok total ks show ?thesis by (simp add: tally_ok_def i_def e_def)
qed

lemma scenario_A_run:
  "createSnapshot scenario_A None None = ([0, 1, 2, 3, 4], Inr [(''0xX'', 2), (''0xY'', 1)])"
  by (simp add: createSnapshot_def scenario_A_def getTotalSupply_def truthy_id_def Let_def
      scan_loop.simps scan_step_def getTokenOwner_def truthy_owner_def holders_get_def)


lemma scenario_A_addresses: "\<forall>i a. ownerOf scenario_A i = Some a \<longrightarrow> is_Address a"
  by (simp add: scenario_A_def is_Address_def)

theorem createSnapshot_tally_witness:
  "createSnapshot scenario_A None None = ([0, 1, 2, 3, 4], Inr [(''0xX'', 2), (''0xY'', 1)])
   \<and> map_of [(''0xX'', 2), (''0xY'', 1 :: nat)] ''0xX'' = Some (resolved_to scenario_A ''0xX'' [0, 1, 2, 3, 4])
   \<and> sum_list (map snd [(''0xX'', 2), (''0xY'', 1 :: nat)]) = resolved scenario_A [0, 1, 2, 3, 4]
   \<and> resolved scenario_A [0, 1, 2, 3, 4] = 3"
proof -
  note t = createSnapshot_tally [OF scenario_A_addresses scenario_A_run]
  have x: "resolved_to scenario_A ''0xX'' [0, 1, 2, 3, 4] = 2"
    by (simp add: resolved_to_def scenario_A_def)
  have r: "resolved scenario_A [0, 1, 2, 3, 4] = 3"
    by (simp add: resolved_def scenario_A_def)
  from t have "map_of [(''0xX'', 2), (''0xY'', 1 :: nat)] ''0xX''
               = (if resolved_to scenario_A ''0xX'' [0, 1, 2, 3, 4] = 0 then None
                  else Some (resolved_to scenario_A ''0xX'' [0, 1, 2, 3, 4]))"
    by blast
  moreover from t have "sum_list (map snd [(''0xX'', 2), (''0xY'', 1 :: nat)])
               = resolved scenario_A [0, 1, 2, 3, 4]"
    by blast
  ultimately show ?thesis using scenario_A_run x r by simp
qed

text \<open>
  Claim C4 as stated fails: with the total-supply call failing and an explicit end of
  5 but no start, \<open>createSnapshot\<close> throws instead of scanning the caller's range.
\<close>

theorem createSnapshot_end_only_counterexample:
  "totalSupply no_supply = None
   \<and> createSnapshot no_supply None (Some 5) = ([], Inl RangeRequired)"
  by (simp add: createSnapshot_def no_supply_def getTotalSupply_def truthy_id_def)

text \<open>
  Claim C4, amended. When the total-supply call fails and the caller left out
  \<open>startId\<close> or \<open>endId\<close>, \<open>createSnapshot\<close> throws and no index has been
  queried. When the call fails and both a non-zero \<open>startId\<close> and a non-zero
  \<open>endId\<close> were given, the scan runs over exactly the indices
  \<open>startId, \<dots>, endId - 1\<close> and a tally is returned. When the call succeeds there
  is no error. Whenever an error is thrown, no index has been queried.
\<close>

theorem createSnapshot_range_error:
  "(totalSupply L = None \<and> (startId = None \<or> endId = None)
      \<longrightarrow> createSnapshot L startId endId = ([], Inl RangeRequired))
   \<and> (totalSupply L = None \<and> startId = Some s \<and> s \<noteq> 0 \<and> endId = Some e \<and> e \<noteq> 0
      \<longrightarrow> (\<exists>holders. createSnapshot L startId endId = ([s..e - 1], Inr holders)))
   \<and> (totalSupply L \<noteq> None \<longrightarrow> (\<exists>ks holders. createSnapshot L startId endId = (ks, Inr holders)))
   \<and> (\<forall>ks err. createSnapshot L startId endId = (ks, Inl err) \<longrightarrow> ks = [])"
proof (intro conjI impI allI)
  assume "totalSupply L = None \<and> (startId = None \<or> endId = None)"
  then show "createSnapshot L startId endId = ([], Inl RangeRequired)"
    by (auto simp: createSnapshot_def getTotalSupply_def truthy_id_def)
next
  assume a: "totalSupply L = None \<and> startId = Some s \<and> s \<noteq> 0 \<and> endId = Some e \<and> e \<noteq> 0"
  have "snd (scan_loop L s e ([], [])) = [s..e - 1]"
    by (simp add: scan_loop_foldl foldl_scan_queries)
  with a show "\<exists>holders. createSnapshot L startId endId = ([s..e - 1], Inr holders)"
    by (simp add: createSnapshot_def getTotalSupply_def truthy_id_def Let_def)
next
  assume "totalSupply L \<noteq> None"
  then show "\<exists>ks holders. createSnapshot L startId endId = (ks, Inr holders)"
    by (auto simp: createSnapshot_def getTotalSupply_def Let_def)
next
  fix ks err
  assume "createSnapshot L startId endId = (ks, Inl err)"
  then show "ks = []"
    by (auto simp: createSnapshot_def getTotalSupply_def Let_def split: option.splits if_splits)
qed

theorem createSnapshot_range_error_witness:
  "createSnapshot no_supply (Some 1) None = ([], Inl RangeRequired)
   \<and> (\<exists>holders. createSnapshot no_supply (Some 1) (Some 4) = ([1, 2, 3], Inr holders))
   \<and> (\<exists>ks holders. createSnapshot scenario_A None None = (ks, Inr holders))
   \<and> createSnapshot no_supply None (Some 5) = ([], Inl RangeRequired)"
proof -
  have a: "totalSupply no_supply = None" by (simp add: no_supply_def)
  have b: "totalSupply scenario_A \<noteq> None" by (simp add: scenario_A_def)
  have r: "[1..4 - 1] = [1, 2, (3::int)]" by (simp add: upto_rec1)
  have "createSnapshot no_supply (Some 1) None = ([], Inl RangeRequired)"
    using createSnapshot_range_error [of no_supply "Some 1" None] a by simp
  moreover have "\<exists>holders. createSnapshot no_supply (Some 1) (Some 4) = ([1, 2, 3], Inr holders)"
    using createSnapshot_range_error [of no_supply "Some 1" "Some 4" 1 4] a r by simp
  moreover have "\<exists>ks holders. createSnapshot scenario_A None None = (ks, Inr holders)"
    using createSnapshot_range_error [of scenario_A None None] b by blast
  moreover have "createSnapshot no_supply None (Some 5) = ([], Inl RangeRequired)"
    using createSnapshot_range_error [of no_supply None "Some 5"] a by simp
  ultimately show ?thesis by blast
qed

subsection \<open>Airdrop eligibility\<close>

text \<open>
  Claim C10. For a snapshot object (distinct keys), \<open>getAirdropEligible\<close> returns
  exactly the addresses whose count is at least \<open>minTokens\<close> (1 when the argument is
  left out), each once; on a snapshot whose counts are all positive, as every tally of
  \<open>createSnapshot\<close> is, the default threshold returns every holder in the snapshot's
  order. The function only reads the snapshot: \<open>Object.entries\<close>, \<open>filter\<close> and
  \<open>map\<close> build new arrays.
\<close>

theorem getAirdropEligible_exact:
  assumes "distinct (map fst snapshot)"
  shows "set (getAirdropEligible snapshot minTokens)
           = {a. \<exists>c. map_of snapshot a = Some c
                    \<and> (case minTokens of None \<Rightarrow> 1 | Some k \<Rightarrow> k) \<le> real c}
       \<and> distinct (getAirdropEligible snapshot minTokens)
       \<and> ((\<forall>c \<in> set (map snd snapshot). 0 < c)
            \<longrightarrow> getAirdropEligible snapshot None = map fst snapshot)"
proof (intro conjI impI)
  show "set (getAirdropEligible snapshot minTokens)
           = {a. \<exists>c. map_of snapshot a = Some c
                    \<and> (case minTokens of None \<Rightarrow> 1 | Some k \<Rightarrow> k) \<le> real c}"
    using assms by (force simp: getAirdropEligible_def Let_def dest: map_of_SomeD)
  show "distinct (getAirdropEligible snapshot minTokens)"
    using assms by (simp add: getAirdropEligible_def Let_def distinct_map_filter)
next
  assume pos: "\<forall>c \<in> set (map snd snapshot). 0 < c"
  then have "filter (\<lambda>(address, count). 1 \<le> real count) snapshot = snapshot"
    by (intro filter_True) (auto simp: Suc_le_eq)
  then show "getAirdropEligible snapshot None = map fst snapshot"
    by (simp add: getAirdropEligible_def)
qed

theorem getAirdropEligible_exact_witness:
  "distinct (map fst [(''0xX'', 2 :: nat), (''0xY'', 1)])
   \<and> getAirdropEligible [(''0xX'', 2), (''0xY'', 1)] (Some 2) = [''0xX'']
   \<and> set (getAirdropEligible [(''0xX'', 2), (''0xY'', 1)] (Some 2))
       = {a. \<exists>c. map_of [(''0xX'', 2), (''0xY'', 1)] a = Some c \<and> 2 \<le> real c}
   \<and> getAirdropEligible [(''0xX'', 2), (''0xY'', 1)] None = [''0xX'', ''0xY'']"
proof -
  have d: "distinct (map fst [(''0xX'', 2 :: nat), (''0xY'', 1)])" by simp
  have p: "\<forall>c \<in> set (map snd [(''0xX'', 2 :: nat), (''0xY'', 1)]). 0 < c" by simp
  note t = getAirdropEligible_exact [OF d]
  have "set (getAirdropEligible [(''0xX'', 2), (''0xY'', 1)] (Some 2))
       = {a. \<exists>c. map_of [(''0xX'', 2), (''0xY'', 1)] a = Some c \<and> 2 \<le> real c}"
    using t [of "Some 2"] by simp
  moreover have "getAirdropEligible [(''0xX'', 2), (''0xY'', 1)] None = [''0xX'', ''0xY'']"
    using t [of None] p by simp
  moreover have "getAirdropEligible [(''0xX'', 2), (''0xY'', 1)] (Some 2) = [''0xX'']"
    by (simp add: getAirdropEligible_def)
  ultimately show ?thesis using d by blast
qed
section \<open>Properties of the number model\<close>

subsection \<open>Rounding to the nearest integer\<close>

lemma round_half_even_lower: "0 < d \<Longrightarrow> n div d \<le> round_half_even n d"
  by (simp add: round_half_even_def Let_def)

lemma round_half_even_upper: "0 < d \<Longrightarrow> round_half_even n d \<le> n div d + 1"
  by (simp add: round_half_even_def Let_def)

subsection \<open>The exponent search\<close>

lemma scale_up_inv:
  assumes "scale_up n d e = (n', d', e')" and "- 1074 \<le> e"
  shows "d' = d \<and> e' \<le> e \<and> - 1074 \<le> e' \<and> n' = n * 2 ^ nat (e - e')
       \<and> (- 1074 < e' \<longrightarrow> 2 ^ 52 * d \<le> n')
       \<and> (e' < e \<longrightarrow> n' < 2 ^ 53 * d)"
  using assms
proof (induction n d e rule: scale_up.induct)
  case (1 n d e)
  show ?case
  proof (cases "n < 2 ^ 52 * d \<and> - 1074 < e")
    case True
    with "1.prems" have run: "scale_up (2 * n) d (e - 1) = (n', d', e')"
      by (simp add: scale_up.simps [of n d e])
    from True have "- 1074 \<le> e - 1" by simp
    from "1.IH" [OF True run this]
    have ih: "d' = d" "e' \<le> e - 1" "- 1074 \<le> e'" "n' = 2 * n * 2 ^ nat (e - 1 - e')"
      "- 1074 < e' \<longrightarrow> 2 ^ 52 * d \<le> n'" "e' < e - 1 \<longrightarrow> n' < 2 ^ 53 * d"
      by blast+
    have "nat (e - e') = Suc (nat (e - 1 - e'))" using ih(2) by simp
    then have n': "n' = n * 2 ^ nat (e - e')" using ih(4) by simp
    have "n' < 2 ^ 53 * d"
    proof (cases "e' < e - 1")
      case True
      with ih(6) show ?thesis by simp
    next
      case False
      with ih(2) have "e' = e - 1" by simp
      with ih(4) have "n' = 2 * n" by simp
      with True show ?thesis by simp
    qed
    with ih n' show ?thesis by simp
  next
    case False
    with "1.prems" have "n' = n" "d' = d" "e' = e"
      by (auto simp: scale_up.simps [of n d e])
    with False "1.prems" show ?thesis by auto
  qed
qed

lemma scale_down_inv:
  assumes "scale_down n d e = (n', d', e')" and "e \<le> 972" and "0 < d"
  shows "n' = n \<and> e \<le> e' \<and> e' \<le> 972 \<and> d' = d * 2 ^ nat (e' - e)
       \<and> (e' < 972 \<longrightarrow> n < 2 ^ 53 * d')
       \<and> (e < e' \<longrightarrow> 2 ^ 52 * d' \<le> n)"
  using assms
proof (induction n d e rule: scale_down.induct)
  case (1 n d e)
  show ?case
  proof (cases "2 ^ 53 * d \<le> n \<and> e < 972")
    case True
    with "1.prems" have run: "scale_down n (2 * d) (e + 1) = (n', d', e')"
      by (simp add: scale_down.simps [of n d e])
    from True "1.prems" have "e + 1 \<le> 972" "0 < 2 * d" by simp_all
    from "1.IH" [OF True run this]
    have ih: "n' = n" "e + 1 \<le> e'" "e' \<le> 972" "d' = 2 * d * 2 ^ nat (e' - (e + 1))"
      "e' < 972 \<longrightarrow> n < 2 ^ 53 * d'" "e + 1 < e' \<longrightarrow> 2 ^ 52 * d' \<le> n"
      by blast+
    have "nat (e' - e) = Suc (nat (e' - (e + 1)))" using ih(2) by simp
    then have d': "d' = d * 2 ^ nat (e' - e)" using ih(4) by simp
    have "2 ^ 52 * d' \<le> n"
    proof (cases "e + 1 < e'")
      case True
      with ih(6) show ?thesis by simp
    next
      case False
      with ih(2) have "e' = e + 1" by simp
      with ih(4) have "d' = 2 * d" by simp
      with True show ?thesis by simp
    qed
    with ih d' show ?thesis by simp
  next
    case False
    with "1.prems" have "n' = n" "d' = d" "e' = e"
      by (auto simp: scale_down.simps [of n d e])
    with False "1.prems" show ?thesis by auto
  qed
qed


lemma round_pos_spec:
  assumes "0 < p" and "0 < q" and "round_pos p q = (m, e)"
  shows "\<exists>n d. m = round_half_even n d \<and> 0 < d \<and> - 1074 \<le> e \<and> e \<le> 972
             \<and> ((e \<le> 0 \<and> n = p * 2 ^ nat (- e) \<and> d = q) \<or> (0 \<le> e \<and> n = p \<and> d = q * 2 ^ nat e))
             \<and> (- 1074 < e \<longrightarrow> 2 ^ 52 * d \<le> n)
             \<and> (e < 972 \<longrightarrow> n < 2 ^ 53 * d)"
proof -
  obtain n1 d1 e1 where up: "scale_up p q 0 = (n1, d1, e1)" by (cases "scale_up p q 0")
  obtain n d e2 where down: "scale_down n1 d1 e1 = (n, d, e2)" by (cases "scale_down n1 d1 e1")
  from assms(3) up down have m: "m = round_half_even n d" and e2: "e2 = e"
    by (simp_all add: round_pos_def)
  have "- 1074 \<le> (0::int)" by simp
  from scale_up_inv [OF up this]
  have u0: "d1 = q" "e1 \<le> 0" "- 1074 \<le> e1" "n1 = p * 2 ^ nat (0 - e1)"
    "- 1074 < e1 \<longrightarrow> 2 ^ 52 * q \<le> n1" "e1 < 0 \<longrightarrow> n1 < 2 ^ 53 * q"
    by blast+
  from u0(4) have u4: "n1 = p * 2 ^ nat (- e1)" by simp
  note u = u0(1-3) u4 u0(5-6)
  from u(2) have e1': "e1 \<le> 972" by simp
  from assms(2) u(1) have d1: "0 < d1" by simp
  from scale_down_inv [OF down e1' d1]
  have w0: "n = n1" "e1 \<le> e2" "e2 \<le> 972" "d = d1 * 2 ^ nat (e2 - e1)"
    "e2 < 972 \<longrightarrow> n1 < 2 ^ 53 * d" "e1 < e2 \<longrightarrow> 2 ^ 52 * d \<le> n1"
    by blast+
  note w = w0 [unfolded e2 u(1)]
  have dpos: "0 < d" using w(4) assms(2) by simp
  have same: "e = e1" if "e1 < 0"
  proof (rule ccontr)
    assume "e \<noteq> e1"
    with w(2) have lt: "e1 < e" by simp
    with w(6) have "2 ^ 52 * d \<le> n1" by simp
    moreover from lt have "2 * q \<le> d" using w(4) assms(2)
      by (cases "nat (e - e1)") simp_all
    moreover from that u(6) have "n1 < 2 ^ 53 * q" by simp
    ultimately show False by simp
  qed
  have shape: "(e \<le> 0 \<and> n = p * 2 ^ nat (- e) \<and> d = q) \<or> (0 \<le> e \<and> n = p \<and> d = q * 2 ^ nat e)"
  proof (cases "e1 < 0")
    case True
    with same have "e = e1" by simp
    with True w(1,4) u(4) show ?thesis by simp
  next
    case False
    with u(2) have "e1 = 0" by simp
    with w(1,2,4) u(4) show ?thesis by simp
  qed
  have low: "- 1074 < e \<longrightarrow> 2 ^ 52 * d \<le> n"
  proof (cases "e1 < e")
    case True
    with w(1,6) show ?thesis by simp
  next
    case False
    with w(2) have "e = e1" by simp
    with w(1,4) u(5) show ?thesis by simp
  qed
  have lo: "- 1074 \<le> e" using u(3) w(2) by linarith
  have hi: "e < 972 \<longrightarrow> n < 2 ^ 53 * d" using w(1,5) by blast
  from m dpos lo w(3) shape low hi show ?thesis by blast
qed

subsection \<open>Comparisons with the dust threshold and with zero\<close>

lemma div_lower: "0 < d \<Longrightarrow> a * d \<le> n \<Longrightarrow> a \<le> n div (d::int)"
  using zdiv_mono1 [of "a * d" n d] by simp

lemma div_upper:
  assumes "0 < d" and "n < a * d"
  shows "n div d < (a::int)"
proof (rule ccontr)
  assume "\<not> n div d < a"
  then have "a * d \<le> n div d * d" using assms(1) by (simp add: mult_right_mono)
  moreover have "n div d * d = n - n mod d" by (simp add: minus_mod_eq_div_mult)
  moreover have "0 \<le> n mod d" using assms(1) by simp
  ultimately show False using assms(2) by linarith
qed

lemma two_le_power: "1 \<le> k \<Longrightarrow> (2::int) \<le> 2 ^ nat k"
proof -
  assume "1 \<le> k"
  then have "nat k = Suc (nat (k - 1))" by simp
  moreover have "(1::int) \<le> 2 ^ nat (k - 1)" by simp
  ultimately show ?thesis by simp
qed

lemma power_nat_mono: "j \<le> k \<Longrightarrow> (2::int) ^ nat j \<le> 2 ^ nat k"
  by (simp add: power_increasing)

text \<open>The literal \<open>0.001\<close> is the double \<open>4611686018427388 * 2 ^ - 62\<close>, a little above one thousandth.\<close>

lemma dust_value: "dust = Finite 4611686018427388 (- 62)"
  by (simp add: dust_def round_ratio_def round_pos_def scale_up.simps scale_down.simps
      round_half_even_def pack_def)

lemma pack_gt_dust:
  assumes "2 ^ 52 \<le> m" and "- 61 \<le> e"
  shows "fgt (pack m e) (Finite 4611686018427388 (- 62))"
proof -
  have k: "(2::int) \<le> 2 ^ nat (e + 62)" using assms(2) by (intro two_le_power) simp
  have k1: "(2::int) \<le> 2 ^ nat (e + 63)" using assms(2) by (intro two_le_power) simp
  from assms(1) have mpos: "0 < m" by simp
  have a: "4611686018427388 < m * 2 ^ nat (e + 62)"
  proof -
    have "4611686018427388 < 2 ^ 52 * (2::int)" by simp
    also have "\<dots> \<le> m * 2" using assms(1) by simp
    also have "\<dots> \<le> m * 2 ^ nat (e + 62)" using k mpos by (intro mult_left_mono) simp_all
    finally show ?thesis .
  qed
  have b: "(4611686018427388::int) < 4503599627370496 * 2 ^ nat (e + 63)"
  proof -
    have "4611686018427388 < 4503599627370496 * (2::int)" by simp
    also have "\<dots> \<le> 4503599627370496 * 2 ^ nat (e + 63)" using k1 by (intro mult_left_mono) simp_all
    finally show ?thesis .
  qed
  from assms(2) have mn: "min e (- 62) = - 62" "min (e + 1) (- 62) = - 62" by simp_all
  show ?thesis
    using mpos a b assms(2)
    by (simp add: pack_def zero_def Let_def mn add.commute)
qed


lemma pack_gt_dust_same:
  "4611686018427388 < m \<Longrightarrow> fgt (pack m (- 62)) (Finite 4611686018427388 (- 62))"
  by (simp add: pack_def zero_def)

lemma pack_le_dust_same:
  "0 \<le> m \<Longrightarrow> m \<le> 4611686018427388 \<Longrightarrow> \<not> fgt (pack m (- 62)) (Finite 4611686018427388 (- 62))"
  by (simp add: pack_def zero_def)

lemma pack_le_dust_low:
  assumes "0 \<le> m" and "m \<le> 2 ^ 53" and "e \<le> - 63"
  shows "\<not> fgt (pack m e) (Finite 4611686018427388 (- 62))"
proof -
  from assms(3) have mn: "min e (- 62) = e" "min (e + 1) (- 62) = e + 1" by simp_all
  have k: "(2::int) \<le> 2 ^ nat (- 62 - e)" using assms(3) by (intro two_le_power) simp
  have k1: "(1::int) \<le> 2 ^ nat (- 63 - e)" by simp
  have a: "m \<le> 4611686018427388 * 2 ^ nat (- 62 - e)"
  proof -
    have "m \<le> 4611686018427388 * (2::int)" using assms(2) by simp
    also have "\<dots> \<le> 4611686018427388 * 2 ^ nat (- 62 - e)" using k by (intro mult_left_mono) simp_all
    finally show ?thesis .
  qed
  have b: "(4503599627370496::int) \<le> 4611686018427388 * 2 ^ nat (- 63 - e)"
  proof -
    have "(4503599627370496::int) \<le> 4611686018427388 * 1" by simp
    also have "\<dots> \<le> 4611686018427388 * 2 ^ nat (- 63 - e)" using k1 by (intro mult_left_mono) simp_all
    finally show ?thesis .
  qed
  have c: "- 62 - (e + 1) = - 63 - e" by simp
  show ?thesis
  proof (cases "m = 2 ^ 53")
    case True
    with assms(3) have "pack m e = Finite 4503599627370496 (e + 1)" by (simp add: pack_def)
    with b show ?thesis by (simp add: Let_def mn c not_less)
  next
    case False
    with assms(1,3) have "pack m e = (if m = 0 then zero else Finite m e)"
      by (simp add: pack_def)
    with a assms(3) show ?thesis by (simp add: zero_def Let_def mn not_less)
  qed
qed

lemma dust_test_gt:
  assumes "0 < b" and "0 < q" and big: "4611686018427389 * q \<le> 2 ^ 62 * b"
  shows "fgt (round_ratio b q) (Finite 4611686018427388 (- 62))"
proof -
  obtain m e where r: "round_pos b q = (m, e)" by (cases "round_pos b q")
  from round_pos_spec [OF assms(1,2) r] obtain n d where
    m: "m = round_half_even n d" and d: "0 < d" and e: "- 1074 \<le> e" "e \<le> 972"
    and shape: "(e \<le> 0 \<and> n = b * 2 ^ nat (- e) \<and> d = q) \<or> (0 \<le> e \<and> n = b \<and> d = q * 2 ^ nat e)"
    and low: "- 1074 < e \<longrightarrow> 2 ^ 52 * d \<le> n"
    and high: "e < 972 \<longrightarrow> n < 2 ^ 53 * d"
    by blast
  have rr: "round_ratio b q = pack m e" using assms(1) r by (simp add: round_ratio_def)
  consider "- 61 \<le> e" | "e = - 62" | "e \<le> - 63" by linarith
  then show ?thesis
  proof cases
    case 1
    with low have "2 ^ 52 * d \<le> n" by simp
    then have "2 ^ 52 \<le> n div d" using d by (intro div_lower) simp
    also have "\<dots> \<le> m" unfolding m using d by (rule round_half_even_lower)
    finally show ?thesis unfolding rr using 1 by (intro pack_gt_dust)
  next
    case 2
    with shape have n: "n = b * 2 ^ 62" and dq: "d = q" by simp_all
    from big have "4611686018427389 * d \<le> n" unfolding n dq by simp
    then have "4611686018427389 \<le> n div d" using d by (intro div_lower)
    also have "\<dots> \<le> m" unfolding m using d by (rule round_half_even_lower)
    finally have "4611686018427388 < m" by simp
    then show ?thesis unfolding rr 2 by (rule pack_gt_dust_same)
  next
    case 3
    with shape have n: "n = b * 2 ^ nat (- e)" and dq: "d = q" by simp_all
    from 3 high have "n < 2 ^ 53 * d" by simp
    moreover have "b * 2 ^ 63 \<le> n"
      unfolding n using assms(1) power_nat_mono [of 63 "- e"] 3 by (intro mult_left_mono) simp_all
    ultimately have "b * 2 ^ 63 < 2 ^ 53 * q" unfolding dq by linarith
    with big assms(2) show ?thesis by simp
  qed
qed

lemma dust_test_le:
  assumes "0 < b" and "0 < q" and small: "1000 * b \<le> q"
  shows "\<not> fgt (round_ratio b q) (Finite 4611686018427388 (- 62))"
proof -
  obtain m e where r: "round_pos b q = (m, e)" by (cases "round_pos b q")
  from round_pos_spec [OF assms(1,2) r] obtain n d where
    m: "m = round_half_even n d" and d: "0 < d" and e: "- 1074 \<le> e" "e \<le> 972"
    and shape: "(e \<le> 0 \<and> n = b * 2 ^ nat (- e) \<and> d = q) \<or> (0 \<le> e \<and> n = b \<and> d = q * 2 ^ nat e)"
    and low: "- 1074 < e \<longrightarrow> 2 ^ 52 * d \<le> n"
    and high: "e < 972 \<longrightarrow> n < 2 ^ 53 * d"
    by blast
  have rr: "round_ratio b q = pack m e" using assms(1) r by (simp add: round_ratio_def)
  have npos: "0 \<le> n" using shape assms(1) by auto
  have m0: "0 \<le> m"
  proof -
    have "0 \<le> n div d" using npos d by (simp add: pos_imp_zdiv_nonneg_iff)
    also have "\<dots> \<le> m" unfolding m using d by (rule round_half_even_lower)
    finally show ?thesis .
  qed
  consider "- 61 \<le> e" | "e = - 62" | "e \<le> - 63" by linarith
  then show ?thesis
  proof cases
    case 1
    with low have l: "2 ^ 52 * d \<le> n" by simp
    from shape show ?thesis
    proof
      assume s: "e \<le> 0 \<and> n = b * 2 ^ nat (- e) \<and> d = q"
      have "b * 2 ^ nat (- e) \<le> b * 2 ^ 61"
        using assms(1) power_nat_mono [of "- e" 61] 1 by (intro mult_left_mono) simp_all
      with l s have "2 ^ 52 * q \<le> b * 2 ^ 61" by simp
      with small assms(1) show ?thesis by simp
    next
      assume s: "0 \<le> e \<and> n = b \<and> d = q * 2 ^ nat e"
      have "q * 1 \<le> q * 2 ^ nat e" using assms(2) by (intro mult_left_mono) simp_all
      with l s have "2 ^ 52 * q \<le> b" by simp
      with small assms(1) show ?thesis by simp
    qed
  next
    case 2
    with shape have n: "n = b * 2 ^ 62" and dq: "d = q" by simp_all
    from small assms(2) have "n < 4611686018427388 * d" unfolding n dq by simp
    then have "n div d < 4611686018427388" using d by (intro div_upper)
    moreover have "m \<le> n div d + 1" unfolding m using d by (rule round_half_even_upper)
    ultimately have "m \<le> 4611686018427388" by simp
    with m0 show ?thesis unfolding rr 2 by (intro pack_le_dust_same)
  next
    case 3
    with high have "n < 2 ^ 53 * d" by simp
    then have "n div d < 2 ^ 53" using d by (intro div_upper)
    moreover have "m \<le> n div d + 1" unfolding m using d by (rule round_half_even_upper)
    ultimately have "m \<le> 2 ^ 53" by simp
    with m0 3 show ?thesis unfolding rr by (intro pack_le_dust_low)
  qed
qed


lemma pack_pos: "0 < m \<Longrightarrow> fgt (pack m e) zero"
proof (cases "m = 2 ^ 53")
  case True
  then show ?thesis by (simp add: pack_def zero_def)
next
  case False
  assume "0 < m"
  with False have "pack m e = (if 971 < e then PosInfinity else Finite m e)"
    by (simp add: pack_def)
  with \<open>0 < m\<close> show ?thesis by (simp add: zero_def Let_def)
qed

lemma round_ratio_pos:
  assumes "0 < p" and "0 < q" and "q \<le> 2 ^ 1074 * p"
  shows "fgt (round_ratio p q) zero"
proof -
  obtain m e where r: "round_pos p q = (m, e)" by (cases "round_pos p q")
  from round_pos_spec [OF assms(1,2) r] obtain n d where
    m: "m = round_half_even n d" and d: "0 < d" and e: "- 1074 \<le> e" "e \<le> 972"
    and shape: "(e \<le> 0 \<and> n = p * 2 ^ nat (- e) \<and> d = q) \<or> (0 \<le> e \<and> n = p \<and> d = q * 2 ^ nat e)"
    and low: "- 1074 < e \<longrightarrow> 2 ^ 52 * d \<le> n"
    by blast
  have rr: "round_ratio p q = pack m e" using assms(1) r by (simp add: round_ratio_def)
  have "1 * d \<le> n"
  proof (cases "- 1074 < e")
    case True
    with low have "2 ^ 52 * d \<le> n" by simp
    with d show ?thesis by simp
  next
    case False
    with e(1) have "e = - 1074" by simp
    with shape have "n = p * 2 ^ 1074" "d = q" by simp_all
    with assms(3) show ?thesis by (simp add: mult.commute)
  qed
  then have "1 \<le> n div d" using d by (intro div_lower)
  also have "\<dots> \<le> m" unfolding m using d by (rule round_half_even_lower)
  finally have "0 < m" by simp
  then show ?thesis unfolding rr by (rule pack_pos)
qed

lemma fgt_zero_zero: "\<not> fgt zero zero"
  by (simp add: zero_def)

lemma native_test: "fgt (parseFloat (formatEther (int wei))) zero \<longleftrightarrow> 0 < wei"
proof (cases "wei = 0")
  case True
  then show ?thesis by (simp add: formatEther_def formatUnits_def round_ratio_def fgt_zero_zero)
next
  case False
  then have "0 < int wei" by simp
  moreover have "(10::int) ^ 18 \<le> 2 ^ 1074 * int wei"
  proof -
    have "(10::int) ^ 18 \<le> 2 ^ 1074 * 1" by simp
    also have "\<dots> \<le> 2 ^ 1074 * int wei" using False by (intro mult_left_mono) simp_all
    finally show ?thesis .
  qed
  ultimately have "fgt (round_ratio (int wei) (10 ^ 18)) zero"
    by (intro round_ratio_pos) simp_all
  with False show ?thesis by (simp add: formatEther_def formatUnits_def)
qed

lemma token_test:
  assumes "0 < bal" and "dp \<le> 18"
  shows "fgt (parseFloat (formatUnits (int bal) dp)) dust
         \<longleftrightarrow> 10 ^ dp < 1000 * bal"
proof (cases "10 ^ dp < 1000 * bal")
  case True
  have pos: "0 < int bal" "(0::int) < 10 ^ dp" using assms(1) by simp_all
  have "4611686018427389 * 10 ^ dp \<le> 2 ^ 62 * int bal"
  proof (cases "dp < 3")
    case True
    then have "(10::int) ^ dp \<le> 10 ^ 2" by (intro power_increasing) simp_all
    then have "4611686018427389 * (10::int) ^ dp \<le> 2 ^ 62 * 1" by simp
    also have "\<dots> \<le> 2 ^ 62 * int bal" using assms(1) by (intro mult_left_mono) simp_all
    finally show ?thesis .
  next
    case False
    define k where "k = dp - 3"
    with False have dk: "dp = k + 3" by simp
    with assms(2) have "k \<le> 15" by simp
    then have q': "(10::int) ^ k \<le> 10 ^ 15" by (intro power_increasing) simp_all
    from True have "(10::nat) ^ k < bal" by (simp add: dk power_add)
    then have "(10::int) ^ k < int bal" by (metis of_nat_less_iff of_nat_numeral of_nat_power)
    then have "(10::int) ^ k + 1 \<le> int bal" by linarith
    with q' show ?thesis by (simp add: dk power_add)
  qed
  from dust_test_gt [OF pos this] True show ?thesis
    by (simp add: formatUnits_def dust_value)
next
  case False
  have pos: "0 < int bal" "(0::int) < 10 ^ dp" using assms(1) by simp_all
  from False have "1000 * bal \<le> 10 ^ dp" by simp
  then have "int (1000 * bal) \<le> int (10 ^ dp)" by (simp only: of_nat_le_iff)
  then have "1000 * int bal \<le> 10 ^ dp" by simp
  from dust_test_le [OF pos this] False show ?thesis
    by (simp add: formatUnits_def dust_value)
qed

section \<open>Properties of the price cache\<close>


lemma two_thousand_value: "two_thousand = round_ratio 2000 1"
  by (simp add: two_thousand_def round_ratio_def round_pos_def scale_up.simps scale_down.simps
      round_half_even_def pack_def)

lemma failed_fetch:
  assumes "cached_price t s = None"
    and "lookup_failure (orc (requests t) (getCoingeckoId s)) (getCoingeckoId s)"
  shows "fst (getTokenPrice orc s t) = zero"
    and "cached_price (snd (getTokenPrice orc s t)) s = None"
    and "requests (snd (getTokenPrice orc s t)) = requests t + 1"
  using assms
  by (auto simp: getTokenPrice_def try_fetch_price_def Let_def cached_price_def zero_def
           split: response.splits option.splits if_splits)

lemma fresh_fetch:
  assumes "cached_price t s = None"
  shows "requests (snd (getTokenPrice orc s t)) = requests t + 1"
  using assms
  by (auto simp: getTokenPrice_def try_fetch_price_def Let_def
           split: response.splits option.splits if_splits)

lemma good_fetch:
  assumes "cached_price t s = None"
    and "orc (requests t) (getCoingeckoId s) = Response True (Some data)"
    and "data (getCoingeckoId s) = Some p" and "truthy_number p"
  shows "fst (getTokenPrice orc s t) = p"
  using assms
  by (auto simp: getTokenPrice_def try_fetch_price_def Let_def)

text \<open>
  The TypeScript \<open>getTokenPrice\<close> does not cache a failure. Let the cache hold no
  truthy price for the symbol, so that the lookup queries the oracle, and let that
  request fail: a network error, a non-success response, an unreadable body or no
  entry for the id. Then the call returns 0 and the cache still holds no truthy price
  for the symbol, so the next call for it issues a new request; and when that request
  succeeds with a price, the call returns that price. Scenario D of the specification
  is the instance below.
\<close>

theorem getTokenPrice_failure_not_cached:
  assumes "cached_price t s = None"
    and "lookup_failure (orc (requests t) (getCoingeckoId s)) (getCoingeckoId s)"
  shows "fst (getTokenPrice orc s t) = zero
       \<and> cached_price (snd (getTokenPrice orc s t)) s = None
       \<and> requests (snd (getTokenPrice orc s (snd (getTokenPrice orc s t)))) = requests t + 2
       \<and> (\<forall>data p. orc (requests t + 1) (getCoingeckoId s) = Response True (Some data)
                    \<and> data (getCoingeckoId s) = Some p \<and> truthy_number p
              \<longrightarrow> fst (getTokenPrice orc s (snd (getTokenPrice orc s t))) = p)"
proof -
  let ?t1 = "snd (getTokenPrice orc s t)"
  note first = failed_fetch [where orc = orc and t = t and s = s, OF assms]
  have "requests (snd (getTokenPrice orc s ?t1)) = requests t + 2"
    using fresh_fetch [where orc = orc, OF first(2)] first(3) by simp
  moreover have "fst (getTokenPrice orc s ?t1) = p"
    if "orc (requests t + 1) (getCoingeckoId s) = Response True (Some data)"
      and "data (getCoingeckoId s) = Some p" and "truthy_number p" for data p
    using good_fetch [where orc = orc and data = data and p = p, OF first(2)] that first(3) by simp
  ultimately show ?thesis using first(1,2) by blast
qed

lemma cg: "getCoingeckoId ''ETH'' = ''ethereum''"
  by (simp add: getCoingeckoId_def)

theorem getTokenPrice_failure_not_cached_witness:
  "fst (getTokenPrice fails_once ''ETH'' (new_tracker [])) = zero
   \<and> fst (getTokenPrice fails_once ''ETH'' (snd (getTokenPrice fails_once ''ETH'' (new_tracker []))))
       = two_thousand
   \<and> requests (snd (getTokenPrice fails_once ''ETH''
                      (snd (getTokenPrice fails_once ''ETH'' (new_tracker []))))) = 2"
proof -
  have c: "cached_price (new_tracker []) ''ETH'' = None"
    by (simp add: cached_price_def new_tracker_def)
  have r: "requests (new_tracker []) = 0" by (simp add: new_tracker_def)
  have f: "lookup_failure (fails_once (requests (new_tracker [])) (getCoingeckoId ''ETH''))
             (getCoingeckoId ''ETH'')"
    by (simp add: r fails_once_def)
  have g: "fails_once (requests (new_tracker []) + 1) (getCoingeckoId ''ETH'')
             = Response True (Some [''ethereum'' \<mapsto> two_thousand])
           \<and> [''ethereum'' \<mapsto> two_thousand] (getCoingeckoId ''ETH'') = Some two_thousand
           \<and> truthy_number two_thousand"
    by (simp add: r fails_once_def cg two_thousand_def)
  from getTokenPrice_failure_not_cached
         [where orc = fails_once and t = "new_tracker []" and s = "''ETH''", OF c f] g r
  show ?thesis by simp
qed

text \<open>
  Claim C5: a failed lookup returns 0 and leaves nothing behind that stops a later
  lookup from asking the oracle again. The TypeScript method does so for every kind
  of failure (above). The JavaScript twin does not for a non-success response: having
  no \<open>response.ok\<close> test, it reads the body, and when the body carries a price for
  the id it returns that price and stores it, after which every lookup of the symbol
  is answered from the cache without a request, whatever the oracle would say. On the
  same input the TypeScript method returns 0 and stores nothing.
\<close>

theorem getTokenPrice_js_non_success:
  assumes "cached_price t s = None"
    and "orc (requests t) (getCoingeckoId s) = Response False (Some data)"
    and "data (getCoingeckoId s) = Some p" and "truthy_number p"
  shows "lookup_failure (orc (requests t) (getCoingeckoId s)) (getCoingeckoId s)
       \<and> fst (getTokenPrice_js orc s t) = p
       \<and> priceCache (snd (getTokenPrice_js orc s t)) s = Some p
       \<and> getTokenPrice_js later s (snd (getTokenPrice_js orc s t))
           = (p, snd (getTokenPrice_js orc s t))
       \<and> fst (getTokenPrice orc s t) = zero
       \<and> cached_price (snd (getTokenPrice orc s t)) s = None"
proof -
  have f: "lookup_failure (orc (requests t) (getCoingeckoId s)) (getCoingeckoId s)"
    using assms(2) by simp
  have run: "getTokenPrice_js orc s t
               = (p, t\<lparr>requests := requests t + 1,
                       priceCache := (priceCache t)(s \<mapsto> p)\<rparr>)"
    using assms by (simp add: getTokenPrice_js_def try_fetch_price_js_def Let_def)
  have stored: "priceCache (snd (getTokenPrice_js orc s t)) s = Some p"
    unfolding run by simp
  have hit: "getTokenPrice_js later s u = (p, u)" if "priceCache u s = Some p" for u
    using that assms(4) by (simp add: getTokenPrice_js_def cached_price_def)
  have again: "getTokenPrice_js later s (snd (getTokenPrice_js orc s t))
                 = (p, snd (getTokenPrice_js orc s t))"
    using stored by (rule hit)
  have ts: "getTokenPrice orc s t = (zero, t\<lparr>requests := requests t + 1\<rparr>)"
    using assms(1,2) by (simp add: getTokenPrice_def try_fetch_price_def Let_def)
  have kept: "cached_price (t\<lparr>requests := requests t + 1\<rparr>) s = None"
    using assms(1) by (simp add: cached_price_def)
  have first: "fst (getTokenPrice_js orc s t) = p" unfolding run by simp
  have tsz: "fst (getTokenPrice orc s t) = zero" unfolding ts by simp
  have tsc: "cached_price (snd (getTokenPrice orc s t)) s = None" unfolding ts using kept by simp
  from f first stored again tsz tsc show ?thesis by blast
qed

theorem getTokenPrice_js_non_success_witness:
  "fst (getTokenPrice_js refused_with_price ''ETH'' (new_tracker [])) = two_thousand
   \<and> priceCache (snd (getTokenPrice_js refused_with_price ''ETH'' (new_tracker []))) ''ETH''
       = Some two_thousand
   \<and> requests (snd (getTokenPrice_js unreachable ''ETH''
                      (snd (getTokenPrice_js refused_with_price ''ETH'' (new_tracker []))))) = 1
   \<and> fst (getTokenPrice_js unreachable ''ETH''
            (snd (getTokenPrice_js refused_with_price ''ETH'' (new_tracker [])))) = two_thousand
   \<and> fst (getTokenPrice refused_with_price ''ETH'' (new_tracker [])) = zero"
proof -
  have c: "cached_price (new_tracker []) ''ETH'' = None"
    by (simp add: cached_price_def new_tracker_def)
  have r: "requests (new_tracker []) = 0" by (simp add: new_tracker_def)
  have o: "refused_with_price (requests (new_tracker [])) (getCoingeckoId ''ETH'')
             = Response False (Some [''ethereum'' \<mapsto> two_thousand])"
    by (simp add: refused_with_price_def)
  have d: "[''ethereum'' \<mapsto> two_thousand] (getCoingeckoId ''ETH'') = Some two_thousand"
    by (simp add: cg)
  have p: "truthy_number two_thousand" by (simp add: two_thousand_def)
  note t = getTokenPrice_js_non_success
    [where orc = refused_with_price and t = "new_tracker []" and s = "''ETH''"
       and data = "[''ethereum'' \<mapsto> two_thousand]" and p = two_thousand
       and later = unreachable, OF c o d p]
  have q: "requests (snd (getTokenPrice_js refused_with_price ''ETH'' (new_tracker []))) = 1"
    by (simp add: getTokenPrice_js_def try_fetch_price_js_def Let_def cg cached_price_def
        refused_with_price_def new_tracker_def)
  from t have a: "fst (getTokenPrice_js refused_with_price ''ETH'' (new_tracker [])) = two_thousand"
    by blast
  from t have b: "priceCache (snd (getTokenPrice_js refused_with_price ''ETH'' (new_tracker [])))
                    ''ETH'' = Some two_thousand"
    by blast
  from t have e: "getTokenPrice_js unreachable ''ETH''
                    (snd (getTokenPrice_js refused_with_price ''ETH'' (new_tracker [])))
                  = (two_thousand, snd (getTokenPrice_js refused_with_price ''ETH'' (new_tracker [])))"
    by blast
  from t have z: "fst (getTokenPrice refused_with_price ''ETH'' (new_tracker [])) = zero"
    by blast
  from a b z show ?thesis unfolding e using q by simp
qed

lemma cached_kept:
  assumes "priceCache t s = Some p" and "truthy_number p"
  shows "priceCache (snd (getTokenPrice orc s' t)) s = Some p"
  using assms
  by (auto simp: getTokenPrice_def try_fetch_price_def Let_def cached_price_def
           split: response.splits option.splits if_splits)

lemma price_run_kept:
  assumes "priceCache t s = Some p" and "truthy_number p"
  shows "priceCache (price_run orc ss t) s = Some p"
  using assms(1)
  by (induction ss arbitrary: t) (simp_all add: cached_kept [OF _ assms(2)])

text \<open>
  Claim C6, amended. A price stored in the cache that is not zero is returned by every
  later \<open>getTokenPrice\<close> call for its symbol, whatever lookups happen in between, and
  such a call leaves the tracker as it is: it issues no request.
\<close>

theorem getTokenPrice_cached:
  assumes "priceCache t s = Some p" and "truthy_number p"
  shows "getTokenPrice orc s (price_run orc ss t) = (p, price_run orc ss t)"
  using price_run_kept [where orc = orc and ss = ss, OF assms] assms(2)
  by (simp add: getTokenPrice_def cached_price_def)

theorem getTokenPrice_cached_witness:
  "priceCache (snd (getTokenPrice fails_once ''ETH'' (snd (getTokenPrice fails_once ''ETH'' (new_tracker [])))))
     ''ETH'' = Some two_thousand
   \<and> fst (getTokenPrice unreachable ''ETH''
            (price_run unreachable [''USDC'', ''ETH'', ''LINK'']
               (snd (getTokenPrice fails_once ''ETH''
                  (snd (getTokenPrice fails_once ''ETH'' (new_tracker []))))))) = two_thousand"
proof -
  let ?t = "snd (getTokenPrice fails_once ''ETH'' (snd (getTokenPrice fails_once ''ETH'' (new_tracker []))))"
  have c: "priceCache ?t ''ETH'' = Some two_thousand"
    by (simp add: getTokenPrice_def try_fetch_price_def Let_def cached_price_def cg
        new_tracker_def fails_once_def two_thousand_def zero_def)
  have p: "truthy_number two_thousand" by (simp add: two_thousand_def)
  from getTokenPrice_cached
         [where orc = unreachable and ss = "[''USDC'', ''ETH'', ''LINK'']", OF c p] c
  show ?thesis by simp
qed

text \<open>
  Claim C6 as stated fails for a cached price of 0: the oracle answers 0, the 0 is
  stored, and the next call for the symbol issues a second request and returns what
  that one answers.
\<close>

theorem getTokenPrice_cached_zero_counterexample:
  "priceCache (snd (getTokenPrice zero_then_price ''ETH'' (new_tracker []))) ''ETH'' = Some zero
   \<and> fst (getTokenPrice zero_then_price ''ETH''
            (snd (getTokenPrice zero_then_price ''ETH'' (new_tracker [])))) = two_thousand
   \<and> requests (snd (getTokenPrice zero_then_price ''ETH'' (new_tracker []))) = 1
   \<and> requests (snd (getTokenPrice zero_then_price ''ETH''
                      (snd (getTokenPrice zero_then_price ''ETH'' (new_tracker []))))) = 2"
  by (simp add: getTokenPrice_def try_fetch_price_def Let_def cached_price_def cg
      new_tracker_def zero_then_price_def zero_def two_thousand_def)

section \<open>Properties of balance collection and aggregation\<close>

subsection \<open>Evaluation rules\<close>

lemmas float_eval = round_ratio_def round_pos_def scale_up.simps scale_down.simps
  round_half_even_def pack_def round_scaled_def zero_def signed_infinity_def Let_def

lemmas tracker_eval = aggregatePortfolio_def new_tracker_def addWallet_def toLowerCase_def
  lower_char_def DEFAULT_TOKENS_def getWalletBalances_def getETHBalance_def getTokenBalance_def
  truthy_string_def formatEther_def formatUnits_def dust_def toString_def token_step_def
  add_balance_def wallet_step_def

subsection \<open>The wallet loop\<close>

lemma wallet_loop_addresses:
  "map wd_address (walletDetails (wallet_loop c toks ws pd))
     = map wd_address (walletDetails pd) @ map address ws"
  by (induction ws arbitrary: pd) (simp_all add: wallet_step_def Let_def)

lemma wallet_loop_cong:
  assumes "\<forall>a. getWalletBalances c1 toks a = getWalletBalances c2 toks a"
  shows "wallet_loop c1 toks ws pd = wallet_loop c2 toks ws pd"
  using assms by (induction ws arbitrary: pd) (simp_all add: wallet_step_def)

lemma token_loop_cong:
  assumes "\<forall>tok. getTokenBalance c1 tok w = getTokenBalance c2 tok w"
  shows "token_loop c1 w toks bals = token_loop c2 w toks bals"
  using assms by (induction toks arbitrary: bals) (auto simp: token_step_def split: prod.splits)

lemma eth_not_retained_zero: "\<not> fgt (parseFloat (formatEther 0)) zero"
  by (simp add: formatEther_def formatUnits_def round_ratio_def zero_def)

lemma eth_not_retained_failed: "\<not> fgt (parseFloat (Dec 0 0)) zero"
  by (simp add: round_ratio_def zero_def)

lemma zero_native_balances:
  assumes "getBalance c w = None"
  shows "getWalletBalances (zero_native c w) toks a = getWalletBalances c toks a"
proof -
  have tl: "token_loop (zero_native c w) a toks bals = token_loop c a toks bals" for bals
    by (rule token_loop_cong) (simp add: getTokenBalance_def zero_native_def)
  show ?thesis
  proof (cases "a = w")
    case True
    with assms show ?thesis
      unfolding getWalletBalances_def tl
      using eth_not_retained_zero eth_not_retained_failed
      by (simp add: getETHBalance_def zero_native_def)
  next
    case False
    then show ?thesis
      unfolding getWalletBalances_def tl
      by (simp add: getETHBalance_def zero_native_def)
  qed
qed

lemma zero_token_balances:
  assumes "balanceOf c tok w = None"
  shows "getWalletBalances (zero_token c tok w) toks a = getWalletBalances c toks a"
proof -
  have "getTokenBalance (zero_token c tok w) tk a = getTokenBalance c tk a" for tk
    using assms by (simp add: getTokenBalance_def zero_token_def)
  then have tl: "token_loop (zero_token c tok w) a toks bals = token_loop c a toks bals" for bals
    by (intro token_loop_cong) simp
  show ?thesis
    unfolding getWalletBalances_def tl
    by (simp add: getETHBalance_def zero_token_def)
qed

text \<open>
  Claim C8. A native-balance query that rejects, or a token-balance query that
  rejects, leaves \<open>aggregatePortfolio\<close> with exactly the result, and the tracker
  with exactly the state, that it has on the ledger where that one query answers 0;
  and whatever rejects, the per-wallet list has one entry for every wallet, in the
  order the wallets were added. In the witness the first wallet's native and USDC
  queries reject; its LINK balance and the second wallet's ether are still collected.
\<close>

theorem aggregatePortfolio_absorbs_failure:
  "(getBalance c w = None \<longrightarrow> aggregatePortfolio (zero_native c w) t = aggregatePortfolio c t)
   \<and> (balanceOf c tok w = None \<longrightarrow> aggregatePortfolio (zero_token c tok w) t = aggregatePortfolio c t)
   \<and> map wd_address (walletDetails (fst (aggregatePortfolio c t))) = map address (wallets t)"
proof (intro conjI impI)
  assume "getBalance c w = None"
  then have "wallet_loop (zero_native c w) (tokens t) (wallets t) pd
               = wallet_loop c (tokens t) (wallets t) pd" for pd
    by (intro wallet_loop_cong allI zero_native_balances)
  then show "aggregatePortfolio (zero_native c w) t = aggregatePortfolio c t"
    by (simp add: aggregatePortfolio_def)
next
  assume "balanceOf c tok w = None"
  then have "wallet_loop (zero_token c tok w) (tokens t) (wallets t) pd
               = wallet_loop c (tokens t) (wallets t) pd" for pd
    by (intro wallet_loop_cong allI zero_token_balances)
  then show "aggregatePortfolio (zero_token c tok w) t = aggregatePortfolio c t"
    by (simp add: aggregatePortfolio_def)
next
  show "map wd_address (walletDetails (fst (aggregatePortfolio c t))) = map address (wallets t)"
    by (simp add: aggregatePortfolio_def Let_def wallet_loop_addresses)
qed

theorem aggregatePortfolio_absorbs_failure_witness:
  "getBalance flaky_chain ''0xf1'' = None
   \<and> aggregatePortfolio (zero_native flaky_chain ''0xf1'') flaky_tracker
       = aggregatePortfolio flaky_chain flaky_tracker
   \<and> balanceOf flaky_chain ''0xA0b86a33E6441c8EBb6E6c8c8c9c5C8C8c8c8c8c'' ''0xf1'' = None
   \<and> aggregatePortfolio (zero_token flaky_chain ''0xA0b86a33E6441c8EBb6E6c8c8c9c5C8C8c8c8c8c'' ''0xf1'')
         flaky_tracker
       = aggregatePortfolio flaky_chain flaky_tracker
   \<and> map wd_address (walletDetails (fst (aggregatePortfolio flaky_chain flaky_tracker)))
       = [''0xf1'', ''0xf2'']
   \<and> aggregatedBalances (fst (aggregatePortfolio flaky_chain flaky_tracker))
       = [(''LINK'', \<lparr>balance = Shortest (Finite 5629499534213120 (- 50)), symbol = ''LINK'',
                      decimals = 18\<rparr>),
          (''ETH'', \<lparr>balance = Shortest (Finite 4503599627370496 (- 51)), symbol = ''ETH'',
                     decimals = 18\<rparr>)]"
proof -
  have n: "getBalance flaky_chain ''0xf1'' = None"
    by (simp add: flaky_chain_def)
  have u: "balanceOf flaky_chain ''0xA0b86a33E6441c8EBb6E6c8c8c9c5C8C8c8c8c8c'' ''0xf1'' = None"
    by (simp add: flaky_chain_def)
  have w: "map address (wallets flaky_tracker) = [''0xf1'', ''0xf2'']"
    by (simp add: flaky_tracker_def tracker_eval)
  have a: "aggregatedBalances (fst (aggregatePortfolio flaky_chain flaky_tracker))
       = [(''LINK'', \<lparr>balance = Shortest (Finite 5629499534213120 (- 50)), symbol = ''LINK'',
                      decimals = 18\<rparr>),
          (''ETH'', \<lparr>balance = Shortest (Finite 4503599627370496 (- 51)), symbol = ''ETH'',
                     decimals = 18\<rparr>)]"
    by (simp add: flaky_chain_def flaky_tracker_def tracker_eval float_eval)
  note t = aggregatePortfolio_absorbs_failure
    [of flaky_chain "''0xf1''" flaky_tracker "''0xA0b86a33E6441c8EBb6E6c8c8c9c5C8C8c8c8c8c''"]
  from t n have "aggregatePortfolio (zero_native flaky_chain ''0xf1'') flaky_tracker
       = aggregatePortfolio flaky_chain flaky_tracker" by blast
  moreover from t u have
    "aggregatePortfolio (zero_token flaky_chain ''0xA0b86a33E6441c8EBb6E6c8c8c9c5C8C8c8c8c8c'' ''0xf1'')
         flaky_tracker
       = aggregatePortfolio flaky_chain flaky_tracker" by blast
  moreover from t w have
    "map wd_address (walletDetails (fst (aggregatePortfolio flaky_chain flaky_tracker)))
       = [''0xf1'', ''0xf2'']" by simp
  ultimately show ?thesis using n u a by blast
qed

subsection \<open>Aggregation\<close>

lemma token_loop_distinct:
  "distinct (map fst bals) \<Longrightarrow> distinct (map fst (token_loop c w toks bals))"
  by (induction toks arbitrary: bals)
     (auto simp: token_step_def Let_def distinct_obj_set split: prod.splits)

lemma getWalletBalances_distinct: "distinct (map fst (getWalletBalances c toks w))"
  by (simp add: getWalletBalances_def Let_def token_loop_distinct)

lemma agg_balance_obj_set:
  "agg_balance (obj_set agg k v) s = (if s = k then Some (balance v) else agg_balance agg s)"
  by (simp add: agg_balance_def map_of_obj_set)

lemma agg_balance_None: "map_of agg k = None \<Longrightarrow> agg_balance agg k = None"
  by (simp add: agg_balance_def)

lemma agg_balance_Some: "map_of agg k = Some cur \<Longrightarrow> agg_balance agg k = Some (balance cur)"
  by (simp add: agg_balance_def)

lemma aggregate_entries_balance:
  assumes "distinct (map fst es)"
  shows "agg_balance (aggregate_entries es agg) s =
           (case map_of es s of
              None \<Rightarrow> agg_balance agg s
            | Some b \<Rightarrow>
                Some (Shortest (fadd (case agg_balance agg s of None \<Rightarrow> zero | Some x \<Rightarrow> parseFloat x)
                                     (parseFloat (balance b)))))"
  using assms
proof (induction es arbitrary: agg)
  case Nil
  then show ?case by simp
next
  case (Cons e es)
  obtain k d where e: "e = (k, d)" by (cases e)
  from Cons.prems e have k: "map_of es k = None" and dist: "distinct (map fst es)"
    by (auto simp: map_of_eq_None_iff)
  have z: "round_ratio 0 1 = zero" by (simp add: round_ratio_def)
  show ?case
  proof (cases "k = s")
    case True
    with k e show ?thesis
      by (cases "map_of agg k")
         (simp_all add: Cons.IH [OF dist] agg_balance_obj_set agg_balance_None agg_balance_Some
                        map_of_obj_set add_balance_def Let_def toString_def z)
  next
    case False
    then have "s \<noteq> k" by blast
    with e show ?thesis
      by (simp add: Cons.IH [OF dist] agg_balance_obj_set add_balance_def Let_def
               split: option.split)
  qed
qed

lemma float_sum_snoc: "float_sum (bs @ [b]) = fadd (float_sum bs) (parseFloat b)"
  by (simp add: float_sum_def)

lemma retained_snoc:
  "retained s (wds @ [wd]) =
     retained s wds @ (case map_of (balances wd) s of None \<Rightarrow> [] | Some b \<Rightarrow> [balance b])"
  by (simp add: retained_def map_filter_def split: option.splits)

lemma wallet_loop_summed:
  "summed pd \<Longrightarrow> summed (wallet_loop c toks ws pd)"
proof (induction ws arbitrary: pd)
  case Nil
  then show ?case by simp
next
  case (Cons w ws)
  let ?bals = "getWalletBalances c toks (address w)"
  let ?pd = "\<lparr>aggregatedBalances = aggregate_entries ?bals (aggregatedBalances pd),
             walletDetails = walletDetails pd
               @ [\<lparr>wd_address = address w, wd_label = label w, balances = ?bals\<rparr>]\<rparr>"
  have "summed ?pd"
    unfolding summed_def
  proof
    fix s
    from Cons.prems have old: "agg_balance (aggregatedBalances pd) s =
        (if retained s (walletDetails pd) = [] then None
         else Some (Shortest (float_sum (retained s (walletDetails pd)))))"
      by (simp add: summed_def)
    show "agg_balance (aggregatedBalances ?pd) s =
        (if retained s (walletDetails ?pd) = [] then None
         else Some (Shortest (float_sum (retained s (walletDetails ?pd)))))"
      using old
      by (cases "map_of ?bals s")
         (auto simp: aggregate_entries_balance [OF getWalletBalances_distinct] retained_snoc
                     float_sum_snoc float_sum_def)
  qed
  then show ?case using Cons.IH by (simp add: wallet_step_def Let_def)
qed

text \<open>
  Claim C2 as stated fails. Three wallets hold 0.1, 0.2 and 0.3 ether. Added in this
  order their total is the double \<open>5404319552844596 * 2 ^ - 53\<close>
  (0.6000000000000001); added in the opposite order it is
  \<open>5404319552844595 * 2 ^ - 53\<close>, the double that the exact sum 0.6 is read as. The
  total depends on the order, and in the first order it is not the exact sum.
\<close>

theorem aggregatePortfolio_drift_counterexample:
  "agg_balance (aggregatedBalances (fst (aggregatePortfolio drift_chain tracker_123))) ''ETH''
     = Some (Shortest (Finite 5404319552844596 (- 53)))
   \<and> agg_balance (aggregatedBalances (fst (aggregatePortfolio drift_chain tracker_321))) ''ETH''
     = Some (Shortest (Finite 5404319552844595 (- 53)))
   \<and> parseFloat (Dec 6 1) = Finite 5404319552844595 (- 53)
   \<and> retained ''ETH'' (walletDetails (fst (aggregatePortfolio drift_chain tracker_123)))
     = [Dec 100000000000000000 18, Dec 200000000000000000 18, Dec 300000000000000000 18]"
proof -
  have "agg_balance (aggregatedBalances (fst (aggregatePortfolio drift_chain tracker_123))) ''ETH''
     = Some (Shortest (Finite 5404319552844596 (- 53)))"
    by (simp add: agg_balance_def drift_chain_def tracker_123_def tracker_eval float_eval)
  moreover have
    "agg_balance (aggregatedBalances (fst (aggregatePortfolio drift_chain tracker_321))) ''ETH''
     = Some (Shortest (Finite 5404319552844595 (- 53)))"
    by (simp add: agg_balance_def drift_chain_def tracker_321_def tracker_eval float_eval)
  moreover have "parseFloat (Dec 6 1) = Finite 5404319552844595 (- 53)"
    by (simp add: float_eval)
  moreover have "retained ''ETH'' (walletDetails (fst (aggregatePortfolio drift_chain tracker_123)))
     = [Dec 100000000000000000 18, Dec 200000000000000000 18, Dec 300000000000000000 18]"
    by (simp add: retained_def map_filter_def drift_chain_def tracker_123_def tracker_eval float_eval)
  ultimately show ?thesis by blast
qed

text \<open>
  Claim C2, amended. For every ledger, wallet list and symbol, the aggregated amount
  of the symbol is absent when no wallet retained the symbol, and otherwise is the
  string of the double-precision sum of the retained per-wallet amounts: starting
  from 0, each amount is read with \<open>parseFloat\<close> and added in wallet order, rounding
  to the nearest double at every step. In Scenario B, 10 TOKA and 5 TOKA give 15.
\<close>

theorem aggregatePortfolio_float_sum:
  "agg_balance (aggregatedBalances (fst (aggregatePortfolio c t))) s =
     (if retained s (walletDetails (fst (aggregatePortfolio c t))) = [] then None
      else Some (toString (float_sum (retained s (walletDetails (fst (aggregatePortfolio c t)))))))"
proof -
  have "summed \<lparr>aggregatedBalances = [], walletDetails = []\<rparr>"
    by (simp add: summed_def agg_balance_def retained_def map_filter_def)
  then have "summed (fst (aggregatePortfolio c t))"
    by (simp add: aggregatePortfolio_def Let_def wallet_loop_summed)
  then show ?thesis by (simp add: summed_def toString_def)
qed

theorem aggregatePortfolio_float_sum_witness:
  "retained ''TOKA'' (walletDetails (fst (aggregatePortfolio scenario_B_chain scenario_B_tracker)))
     = [Dec 10000000000000000000 18, Dec 5000000000000000000 18]
   \<and> agg_balance (aggregatedBalances (fst (aggregatePortfolio scenario_B_chain scenario_B_tracker)))
         ''TOKA''
       = Some (toString (parseFloat (Dec 15 0)))"
proof -
  have r: "retained ''TOKA'' (walletDetails (fst (aggregatePortfolio scenario_B_chain scenario_B_tracker)))
     = [Dec 10000000000000000000 18, Dec 5000000000000000000 18]"
    by (simp add: retained_def map_filter_def scenario_B_chain_def scenario_B_tracker_def toka_def
        tracker_eval float_eval)
  have "float_sum [Dec 10000000000000000000 18, Dec 5000000000000000000 18] = parseFloat (Dec 15 0)"
    by (simp add: float_sum_def float_eval)
  with aggregatePortfolio_float_sum [of scenario_B_chain scenario_B_tracker "''TOKA''"] r
  show ?thesis by simp
qed

section \<open>The dust filter\<close>

lemma token_step_lookup:
  "map_of (token_step c w (k, token) bals) s =
     (if k = s \<and> truthy_string (tc_address token)
         \<and> 0 < getTokenBalance c (the (tc_address token)) w
         \<and> fgt (parseFloat (formatUnits (int (getTokenBalance c (the (tc_address token)) w))
                                      (tc_decimals token))) dust
      then Some \<lparr>balance = formatUnits (int (getTokenBalance c (the (tc_address token)) w))
                                      (tc_decimals token),
                 symbol = tc_symbol token, decimals = tc_decimals token\<rparr>
      else map_of bals s)"
  by (simp add: token_step_def Let_def map_of_obj_set)

lemma token_loop_other:
  "s \<notin> fst ` set toks \<Longrightarrow> map_of (token_loop c w toks bals) s = map_of bals s"
proof (induction toks arbitrary: bals)
  case Nil
  then show ?case by simp
next
  case (Cons entry toks)
  obtain k token where e: "entry = (k, token)" by (cases entry)
  with Cons.prems have "k \<noteq> s" and "s \<notin> fst ` set toks" by auto
  with Cons.IH e show ?case by (simp add: token_step_lookup)
qed

lemma token_loop_lookup:
  assumes "distinct (map fst toks)" and "map_of toks s = Some token"
  shows "map_of (token_loop c w toks bals) s = map_of (token_step c w (s, token) bals) s"
  using assms
proof (induction toks arbitrary: bals)
  case Nil
  then show ?case by simp
next
  case (Cons entry toks)
  obtain k tk where e: "entry = (k, tk)" by (cases entry)
  from Cons.prems(1) e have fresh: "k \<notin> fst ` set toks" and dist: "distinct (map fst toks)"
    by simp_all
  show ?case
  proof (cases "k = s")
    case True
    with Cons.prems(2) e have "tk = token" by simp
    with True e fresh show ?thesis by (simp add: token_loop_other)
  next
    case False
    with Cons.prems(2) e have "map_of toks s = Some token" by simp
    from Cons.IH [OF dist this] False e show ?thesis by (simp add: token_step_lookup)
  qed
qed

text \<open>
  The bound of 18 decimals in \<open>token_test\<close> is sharp: with 19 decimals, a balance of
  0.0010000000000000001 is read as the same double as the literal \<open>0.001\<close> and is
  filtered out although it is greater than one thousandth.
\<close>

lemma token_test_19_decimals:
  "\<not> fgt (parseFloat (formatUnits 10000000000000001 19)) dust
   \<and> (10::int) ^ 19 < 1000 * 10000000000000001"
  by (simp add: formatUnits_def dust_def float_eval)

text \<open>
  Claim C7 as stated fails for the native asset: a wallet holding 0.0005 ether, which
  is below the threshold of 0.001, keeps its ETH entry.
\<close>

theorem getWalletBalances_native_dust_counterexample:
  "getBalance dusty_chain ''0xd1'' = Some 500000000000000
   \<and> map_of (getWalletBalances dusty_chain DEFAULT_TOKENS ''0xd1'') ''ETH''
       = Some \<lparr>balance = Dec 500000000000000 18, symbol = ''ETH'', decimals = 18\<rparr>"
  by (simp add: dusty_chain_def tracker_eval float_eval)

text \<open>
  Claim C7, amended. Let the token registry be an object (distinct keys). A token
  with a contract address and at most 18 decimals, registered under a key other than
  \<open>ETH\<close>, is retained for a wallet if and only if its balance is strictly greater than
  0.001 in human units, that is \<open>10 ^ decimals < 1000 * raw\<close>: a balance of exactly
  0.001 is excluded, a failed query counts as 0, and the retained entry carries
  \<open>formatUnits raw decimals\<close>, the raw on-chain value printed exactly. The native
  balance is retained if and only if it is strictly greater than 0: no dust threshold
  is applied to it.
\<close>

theorem getWalletBalances_retention:
  assumes "distinct (map fst toks)"
  shows "(map_of toks s = Some token \<and> tc_address token = Some a \<and> a \<noteq> [] \<and> s \<noteq> ''ETH''
            \<and> tc_decimals token \<le> 18
          \<longrightarrow> map_of (getWalletBalances c toks w) s =
                (if 10 ^ tc_decimals token < 1000 * getTokenBalance c a w
                 then Some \<lparr>balance = formatUnits (int (getTokenBalance c a w)) (tc_decimals token),
                            symbol = tc_symbol token, decimals = tc_decimals token\<rparr>
                 else None))
       \<and> ((\<forall>eth. map_of toks ''ETH'' = Some eth \<longrightarrow> \<not> truthy_string (tc_address eth))
          \<longrightarrow> map_of (getWalletBalances c toks w) ''ETH'' =
                (case getBalance c w of
                   None \<Rightarrow> None
                 | Some wei \<Rightarrow>
                     if 0 < wei
                     then Some \<lparr>balance = formatEther (int wei), symbol = ''ETH'', decimals = 18\<rparr>
                     else None))"
proof (intro conjI impI)
  assume h: "map_of toks s = Some token \<and> tc_address token = Some a \<and> a \<noteq> [] \<and> s \<noteq> ''ETH''
             \<and> tc_decimals token \<le> 18"
  let ?bal = "getTokenBalance c a w"
  have test: "(0 < ?bal \<and> fgt (parseFloat (formatUnits (int ?bal) (tc_decimals token))) dust)
              \<longleftrightarrow> 10 ^ tc_decimals token < 1000 * ?bal"
  proof (cases "0 < ?bal")
    case True
    with h token_test [of ?bal "tc_decimals token"] show ?thesis by simp
  next
    case False
    then show ?thesis by simp
  qed
  from h have "map_of (getWalletBalances c toks w) s
                 = map_of (token_step c w (s, token)
                     (if fgt (parseFloat (getETHBalance c w)) zero
                      then [(''ETH'', \<lparr>balance = getETHBalance c w, symbol = ''ETH'', decimals = 18\<rparr>)]
                      else [])) s"
    by (simp add: getWalletBalances_def Let_def token_loop_lookup [OF assms])
  also have "\<dots> = (if 0 < ?bal \<and> fgt (parseFloat (formatUnits (int ?bal) (tc_decimals token))) dust
                   then Some \<lparr>balance = formatUnits (int ?bal) (tc_decimals token),
                              symbol = tc_symbol token, decimals = tc_decimals token\<rparr>
                   else None)"
    using h by (simp add: token_step_lookup truthy_string_def)
  finally show "map_of (getWalletBalances c toks w) s =
                (if 10 ^ tc_decimals token < 1000 * ?bal
                 then Some \<lparr>balance = formatUnits (int ?bal) (tc_decimals token),
                            symbol = tc_symbol token, decimals = tc_decimals token\<rparr>
                 else None)"
    using test by simp
next
  assume h: "\<forall>eth. map_of toks ''ETH'' = Some eth \<longrightarrow> \<not> truthy_string (tc_address eth)"
  let ?start = "if fgt (parseFloat (getETHBalance c w)) zero
                then [(''ETH'', \<lparr>balance = getETHBalance c w, symbol = ''ETH'', decimals = 18\<rparr>)]
                else []"
  have "map_of (token_loop c w toks ?start) ''ETH'' = map_of ?start ''ETH''"
  proof (cases "map_of toks ''ETH''")
    case None
    then have "''ETH'' \<notin> fst ` set toks" by (simp add: map_of_eq_None_iff)
    then show ?thesis by (rule token_loop_other)
  next
    case (Some eth)
    with h have "\<not> truthy_string (tc_address eth)" by simp
    with token_loop_lookup [OF assms Some, of c w ?start] show ?thesis
      by (simp add: token_step_lookup)
  qed
  then have "map_of (getWalletBalances c toks w) ''ETH'' = map_of ?start ''ETH''"
    by (simp add: getWalletBalances_def Let_def)
  also have "\<dots> = (case getBalance c w of
                     None \<Rightarrow> None
                   | Some wei \<Rightarrow>
                       if 0 < wei
                       then Some \<lparr>balance = formatEther (int wei), symbol = ''ETH'', decimals = 18\<rparr>
                       else None)"
  proof (cases "getBalance c w")
    case None
    then show ?thesis using eth_not_retained_failed by (simp add: getETHBalance_def)
  next
    case (Some wei)
    then show ?thesis using native_test [of wei] by (simp add: getETHBalance_def)
  qed
  finally show "map_of (getWalletBalances c toks w) ''ETH'' =
                (case getBalance c w of
                   None \<Rightarrow> None
                 | Some wei \<Rightarrow>
                     if 0 < wei
                     then Some \<lparr>balance = formatEther (int wei), symbol = ''ETH'', decimals = 18\<rparr>
                     else None)" .
qed

theorem getWalletBalances_retention_witness:
  "getTokenBalance dusty_chain ''0xA0b86a33E6441c8EBb6E6c8c8c9c5C8C8c8c8c8c'' ''0xd1'' = 1000
   \<and> map_of (getWalletBalances dusty_chain DEFAULT_TOKENS ''0xd1'') ''USDC'' = None
   \<and> getTokenBalance dusty_chain ''0xdAC17F958D2ee523a2206206994597C13D831ec7'' ''0xd1'' = 1001
   \<and> map_of (getWalletBalances dusty_chain DEFAULT_TOKENS ''0xd1'') ''USDT''
       = Some \<lparr>balance = formatUnits 1001 6, symbol = ''USDT'', decimals = 6\<rparr>
   \<and> map_of (getWalletBalances dusty_chain DEFAULT_TOKENS ''0xd1'') ''ETH''
       = Some \<lparr>balance = formatEther 500000000000000, symbol = ''ETH'', decimals = 18\<rparr>"
proof -
  have d: "distinct (map fst DEFAULT_TOKENS)" by (simp add: DEFAULT_TOKENS_def)
  have usdc: "map_of DEFAULT_TOKENS ''USDC''
                = Some \<lparr>tc_address = Some ''0xA0b86a33E6441c8EBb6E6c8c8c9c5C8C8c8c8c8c'',
                        tc_decimals = 6, tc_symbol = ''USDC''\<rparr>"
    by (simp add: DEFAULT_TOKENS_def)
  have usdt: "map_of DEFAULT_TOKENS ''USDT''
                = Some \<lparr>tc_address = Some ''0xdAC17F958D2ee523a2206206994597C13D831ec7'',
                        tc_decimals = 6, tc_symbol = ''USDT''\<rparr>"
    by (simp add: DEFAULT_TOKENS_def)
  have eth: "\<forall>eth. map_of DEFAULT_TOKENS ''ETH'' = Some eth \<longrightarrow> \<not> truthy_string (tc_address eth)"
    by (simp add: DEFAULT_TOKENS_def truthy_string_def)
  have b1: "getTokenBalance dusty_chain ''0xA0b86a33E6441c8EBb6E6c8c8c9c5C8C8c8c8c8c'' ''0xd1'' = 1000"
    by (simp add: getTokenBalance_def dusty_chain_def)
  have b2: "getTokenBalance dusty_chain ''0xdAC17F958D2ee523a2206206994597C13D831ec7'' ''0xd1'' = 1001"
    by (simp add: getTokenBalance_def dusty_chain_def)
  have g: "getBalance dusty_chain ''0xd1'' = Some 500000000000000"
    by (simp add: dusty_chain_def)
  have "map_of (getWalletBalances dusty_chain DEFAULT_TOKENS ''0xd1'') ''USDC'' = None"
    using getWalletBalances_retention
            [OF d, where s = "''USDC''" and a = "''0xA0b86a33E6441c8EBb6E6c8c8c9c5C8C8c8c8c8c''"
               and token = "\<lparr>tc_address = Some ''0xA0b86a33E6441c8EBb6E6c8c8c9c5C8C8c8c8c8c'',
                            tc_decimals = 6, tc_symbol = ''USDC''\<rparr>"
               and c = dusty_chain and w = "''0xd1''"] usdc b1
    by simp
  moreover have "map_of (getWalletBalances dusty_chain DEFAULT_TOKENS ''0xd1'') ''USDT''
       = Some \<lparr>balance = formatUnits 1001 6, symbol = ''USDT'', decimals = 6\<rparr>"
    using getWalletBalances_retention
            [OF d, where s = "''USDT''" and a = "''0xdAC17F958D2ee523a2206206994597C13D831ec7''"
               and token = "\<lparr>tc_address = Some ''0xdAC17F958D2ee523a2206206994597C13D831ec7'',
                            tc_decimals = 6, tc_symbol = ''USDT''\<rparr>"
               and c = dusty_chain and w = "''0xd1''"] usdt b2
    by simp
  moreover have "map_of (getWalletBalances dusty_chain DEFAULT_TOKENS ''0xd1'') ''ETH''
       = Some \<lparr>balance = formatEther 500000000000000, symbol = ''ETH'', decimals = 18\<rparr>"
    using getWalletBalances_retention [OF d, where c = dusty_chain and w = "''0xd1''"] eth g
    by simp
  ultimately show ?thesis using b1 b2 by blast
qed

section \<open>Address normalisation\<close>













section \<open>Percentages of the valuation\<close>

lemma set_insert_row: "set (insert_row x ys) = insert x (set ys)"
  by (induction ys) auto

lemma set_foldl_insert_row:
  "set (foldl (\<lambda>sorted x. insert_row x sorted) acc rows) = set acc \<union> set rows"
  by (induction rows arbitrary: acc) (simp_all add: set_insert_row)

lemma set_sort_rows: "set (sort_rows rows) = set rows"
  by (simp add: sort_rows_def set_foldl_insert_row)

lemma hundred_value: "round_ratio 100 1 = Finite 7036874417766400 (- 46)"
  by (simp add: float_eval)

lemma percentage_zero_total:
  "percentage (set_percentage zero item)
     \<in> {Shortest NaN, Shortest PosInfinity, Shortest NegInfinity}"
proof (cases "parseFloat (av_value item)")
  case (Finite m e)
  then show ?thesis
    by (simp add: set_percentage_def hundred_value zero_def signed_infinity_def sgn_if)
qed (simp_all add: set_percentage_def hundred_value zero_def signed_infinity_def)

text \<open>
  Claim C3: the code divides by the total without a guard. Whenever the total value
  of a valuation is 0, the percentage of every row is the string \<open>NaN\<close> or an
  infinity, never a number: the first because \<open>0 / 0\<close> is \<open>NaN\<close>. With one ether in
  one wallet and an unreachable oracle, the single row has value \<open>0.00\<close> and
  percentage \<open>NaN\<close>.
\<close>

theorem calculatePortfolioValue_zero_total:
  assumes "calculatePortfolioValue c orc t = (pv, t')" and "totalValue pv = zero"
  shows "\<forall>row \<in> set (valueBreakdown pv).
           percentage row \<in> {Shortest NaN, Shortest PosInfinity, Shortest NegInfinity}"
proof -
  let ?t0 = "if aggregatedBalances (portfolioData t) = [] then snd (aggregatePortfolio c t) else t"
  obtain tot rows t1 where
    loop: "value_loop orc (aggregatedBalances (portfolioData ?t0)) (zero, [], ?t0) = (tot, rows, t1)"
    by (cases "value_loop orc (aggregatedBalances (portfolioData ?t0)) (zero, [], ?t0)")
  with assms(1) have pv: "pv = \<lparr>totalValue = tot, valueBreakdown = sort_rows (map (set_percentage tot) rows)\<rparr>"
    by (simp add: calculatePortfolioValue_def Let_def)
  with assms(2) have "tot = zero" by simp
  with pv have "set (valueBreakdown pv) = set_percentage zero ` set rows"
    by (simp add: set_sort_rows)
  then show ?thesis using percentage_zero_total by auto
qed

theorem calculatePortfolioValue_zero_total_witness:
  "fst (calculatePortfolioValue one_ether_chain unreachable one_ether_tracker)
     = \<lparr>totalValue = zero,
        valueBreakdown = [\<lparr>av_symbol = ''ETH'', av_balance = Dec 1000000 6, av_price = Dec 0 2,
                           av_value = Dec 0 2, percentage = Shortest NaN\<rparr>]\<rparr>"
proof -
  have a: "aggregatedBalances (portfolioData one_ether_tracker) = []"
    by (simp add: one_ether_tracker_def new_tracker_def addWallet_def)
  have b: "aggregatedBalances (portfolioData (snd (aggregatePortfolio one_ether_chain one_ether_tracker)))
             = [(''ETH'', \<lparr>balance = Shortest (Finite 4503599627370496 (- 52)), symbol = ''ETH'',
                           decimals = 18\<rparr>)]"
    by (simp add: one_ether_chain_def one_ether_tracker_def tracker_eval float_eval)
  have p: "getTokenPrice unreachable ''ETH'' t = (zero, t\<lparr>requests := requests t + 1\<rparr>)"
    if "priceCache t = Map.empty" for t
    using that
    by (simp add: getTokenPrice_def cached_price_def try_fetch_price_def unreachable_def Let_def)
  have c: "priceCache (snd (aggregatePortfolio one_ether_chain one_ether_tracker)) = Map.empty"
    by (simp add: aggregatePortfolio_def Let_def one_ether_tracker_def new_tracker_def addWallet_def)
  have run: "fst (calculatePortfolioValue one_ether_chain unreachable one_ether_tracker)
     = \<lparr>totalValue = zero,
        valueBreakdown = [\<lparr>av_symbol = ''ETH'', av_balance = Dec 1000000 6, av_price = Dec 0 2,
                           av_value = Dec 0 2, percentage = Shortest NaN\<rparr>]\<rparr>"
    by (simp add: calculatePortfolioValue_def a b value_step_def p [OF c] set_percentage_def
        sort_rows_def float_eval)
  obtain pv t' where r: "calculatePortfolioValue one_ether_chain unreachable one_ether_tracker = (pv, t')"
    by (cases "calculatePortfolioValue one_ether_chain unreachable one_ether_tracker")
  with run have pv: "pv = \<lparr>totalValue = zero,
        valueBreakdown = [\<lparr>av_symbol = ''ETH'', av_balance = Dec 1000000 6, av_price = Dec 0 2,
                           av_value = Dec 0 2, percentage = Shortest NaN\<rparr>]\<rparr>" by simp
  then have "totalValue pv = zero" by simp
  from calculatePortfolioValue_zero_total [OF r this] pv
  have "percentage \<lparr>av_symbol = ''ETH'', av_balance = Dec 1000000 6, av_price = Dec 0 2,
                     av_value = Dec 0 2, percentage = Shortest NaN\<rparr>
          \<in> {Shortest NaN, Shortest PosInfinity, Shortest NegInfinity}" by simp
  with run show ?thesis by simp
qed

text \<open>
  The percentages are computed from the row values as printed, that is rounded to two
  decimals. For a total below half a cent's worth per row this loses everything: the
  single row of a portfolio worth 0.004 has value \<open>0.00\<close> and percentage \<open>0.00\<close>,
  although the total is positive.
\<close>

lemma calculatePortfolioValue_small_total:
  "fst (calculatePortfolioValue tiny_chain steady one_ether_tracker)
     = \<lparr>totalValue = Finite 4611686018427388 (- 60),
        valueBreakdown = [\<lparr>av_symbol = ''ETH'', av_balance = Dec 2 6, av_price = Dec 200000 2,
                           av_value = Dec 0 2, percentage = Dec 0 2\<rparr>]\<rparr>"
proof -
  have a: "aggregatedBalances (portfolioData one_ether_tracker) = []"
    by (simp add: one_ether_tracker_def new_tracker_def addWallet_def)
  have b: "aggregatedBalances (portfolioData (snd (aggregatePortfolio tiny_chain one_ether_tracker)))
             = [(''ETH'', \<lparr>balance = Shortest (Finite 4722366482869645 (- 71)), symbol = ''ETH'',
                           decimals = 18\<rparr>)]"
    by (simp add: tiny_chain_def one_ether_tracker_def tracker_eval float_eval)
  have c: "priceCache (snd (aggregatePortfolio tiny_chain one_ether_tracker)) = Map.empty"
    by (simp add: aggregatePortfolio_def Let_def one_ether_tracker_def new_tracker_def addWallet_def)
  have p: "getTokenPrice steady ''ETH'' t
             = (two_thousand,
                t\<lparr>requests := requests t + 1,
                  priceCache := (priceCache t)(''ETH'' \<mapsto> two_thousand)\<rparr>)"
    if "priceCache t = Map.empty" for t
    using that
    by (simp add: getTokenPrice_def cached_price_def try_fetch_price_def steady_def Let_def cg
        two_thousand_def)
  show ?thesis
    by (simp add: calculatePortfolioValue_def a b value_step_def p [OF c] set_percentage_def
        sort_rows_def float_eval two_thousand_def)
qed


end
